theory Spec2Isabelle
  imports Main
begin

section \<open>Strings and paths\<close>

text \<open>
  File names are Python \<open>str\<close> values; they are modelled as HOL strings, and the
  character tests below are the ASCII ones. A path is the list of its components, as
  \<open>pathlib\<close> keeps them (\<open>Path.parts\<close>).
\<close>

type_synonym path = "string list"

definition joinpath :: "path \<Rightarrow> string \<Rightarrow> path" where
  \<comment> \<open>\<open>p / s\<close> for a single segment: an empty segment and \<open>.\<close> are dropped.\<close>
  "joinpath p s = (if s = [] \<or> s = ''.'' then p else p @ [s])"

definition pname :: "path \<Rightarrow> string" where
  \<comment> \<open>\<open>Path.name\<close>\<close>
  "pname p = (if p = [] then [] else last p)"

definition parent :: "path \<Rightarrow> path" where
  \<comment> \<open>\<open>Path.parent\<close>\<close>
  "parent p = butlast p"

definition is_digit :: "char \<Rightarrow> bool" where
  "is_digit c = (48 \<le> (of_char c :: nat) \<and> (of_char c :: nat) \<le> 57)"

definition isdigit :: "string \<Rightarrow> bool" where
  \<comment> \<open>\<open>str.isdigit\<close>: non-empty and every character a digit\<close>
  "isdigit s = (s \<noteq> [] \<and> list_all is_digit s)"

definition is_upper :: "char \<Rightarrow> bool" where
  "is_upper c = (65 \<le> (of_char c :: nat) \<and> (of_char c :: nat) \<le> 90)"

definition is_lower :: "char \<Rightarrow> bool" where
  "is_lower c = (97 \<le> (of_char c :: nat) \<and> (of_char c :: nat) \<le> 122)"

fun lower_char :: "char \<Rightarrow> char" where
  \<comment> \<open>an upper-case letter gets bit 5 set (\<open>+ 32\<close>)\<close>
  "lower_char (Char b0 b1 b2 b3 b4 b5 b6 b7) =
     (if is_upper (Char b0 b1 b2 b3 b4 b5 b6 b7)
      then Char b0 b1 b2 b3 b4 True b6 b7 else Char b0 b1 b2 b3 b4 b5 b6 b7)"

fun upper_char :: "char \<Rightarrow> char" where
  \<comment> \<open>a lower-case letter gets bit 5 cleared (\<open>- 32\<close>)\<close>
  "upper_char (Char b0 b1 b2 b3 b4 b5 b6 b7) =
     (if is_lower (Char b0 b1 b2 b3 b4 b5 b6 b7)
      then Char b0 b1 b2 b3 b4 False b6 b7 else Char b0 b1 b2 b3 b4 b5 b6 b7)"

definition lower :: "string \<Rightarrow> string" where
  \<comment> \<open>\<open>str.lower\<close>\<close>
  "lower s = map lower_char s"

fun split_on :: "char \<Rightarrow> string \<Rightarrow> string list" where
  \<comment> \<open>\<open>str.split(sep)\<close> for a one-character separator: never an empty list\<close>
  "split_on c [] = [ [] ]"
| "split_on c (x # xs) =
     (if x = c then [] # split_on c xs
      else (case split_on c xs of
              [] \<Rightarrow> [ [x] ]
            | w # ws \<Rightarrow> (x # w) # ws))"

definition dot_index :: "string \<Rightarrow> nat option" where
  \<comment> \<open>\<open>name.rfind('.')\<close> when it lies strictly between \<open>0\<close> and \<open>len(name) - 1\<close>\<close>
  "dot_index n =
     (if CHR ''.'' \<in> set n
      then (let k = length (takeWhile (\<lambda>c. c \<noteq> CHR ''.'') (rev n));
                i = length n - 1 - k
            in if 0 < i \<and> i < length n - 1 then Some i else None)
      else None)"

definition suffix :: "path \<Rightarrow> string" where
  \<comment> \<open>\<open>Path.suffix\<close>\<close>
  "suffix p = (case dot_index (pname p) of None \<Rightarrow> [] | Some i \<Rightarrow> drop i (pname p))"

definition stem :: "path \<Rightarrow> string" where
  \<comment> \<open>\<open>Path.stem\<close>\<close>
  "stem p = (case dot_index (pname p) of None \<Rightarrow> pname p | Some i \<Rightarrow> take i (pname p))"

definition rpartition_tilde :: "string \<Rightarrow> string \<times> string" where
  \<comment> \<open>\<open>s.rpartition("~")\<close>, first and last component\<close>
  "rpartition_tilde s =
     (if CHR ''~'' \<in> set s
      then (let k = length (takeWhile (\<lambda>c. c \<noteq> CHR ''~'') (rev s))
            in (take (length s - 1 - k) s, drop (length s - k) s))
      else ([], s))"

section \<open>Dates\<close>

text \<open>
  A calendar date is a triple (year, month, day). \<open>strptime\<close> below follows
  \<open>datetime.strptime(date_part, "%Y%m%d")\<close>: the format is compiled to the regular
  expression \<open>(\d\d\d\d)(1[0-2]|0[1-9]|[1-9])(3[0-1]|[1-2]\d|0[1-9]|[1-9]| [1-9])\<close>,
  matched at the start of the string with backtracking over the alternatives in
  this order; text left over after the match, and a date that does not exist,
  are a \<open>ValueError\<close> (here \<open>None\<close>).
\<close>

type_synonym date = "nat \<times> nat \<times> nat"

definition digit_val :: "char \<Rightarrow> nat" where
  "digit_val c = (of_char c :: nat) - 48"

definition in_range :: "char \<Rightarrow> char \<Rightarrow> char \<Rightarrow> bool" where
  "in_range lo hi c = ((of_char lo :: nat) \<le> of_char c \<and> (of_char c :: nat) \<le> of_char hi)"

fun month_alts :: "string \<Rightarrow> (nat \<times> string) list" where
  \<comment> \<open>the ways \<open>1[0-2]|0[1-9]|[1-9]\<close> matches a prefix, in the order tried\<close>
  "month_alts [] = []"
| "month_alts [c] = (if in_range CHR ''1'' CHR ''9'' c then [(digit_val c, [])] else [])"
| "month_alts (c # d # r) =
     (if c = CHR ''1'' \<and> in_range CHR ''0'' CHR ''2'' d then [(10 + digit_val d, r)] else []) @
     (if c = CHR ''0'' \<and> in_range CHR ''1'' CHR ''9'' d then [(digit_val d, r)] else []) @
     (if in_range CHR ''1'' CHR ''9'' c then [(digit_val c, d # r)] else [])"

fun day_match :: "string \<Rightarrow> (nat \<times> string) option" where
  \<comment> \<open>the first alternative of \<open>3[0-1]|[1-2]\d|0[1-9]|[1-9]| [1-9]\<close> matching a prefix\<close>
  "day_match [] = None"
| "day_match [c] = (if in_range CHR ''1'' CHR ''9'' c then Some (digit_val c, []) else None)"
| "day_match (c # d # r) =
     (if c = CHR ''3'' \<and> in_range CHR ''0'' CHR ''1'' d then Some (30 + digit_val d, r)
      else if in_range CHR ''1'' CHR ''2'' c \<and> is_digit d then Some (10 * digit_val c + digit_val d, r)
      else if c = CHR ''0'' \<and> in_range CHR ''1'' CHR ''9'' d then Some (digit_val d, r)
      else if in_range CHR ''1'' CHR ''9'' c then Some (digit_val c, d # r)
      else if c = CHR '' '' \<and> in_range CHR ''1'' CHR ''9'' d then Some (digit_val d, r)
      else None)"

fun first_match :: "(nat \<times> string) list \<Rightarrow> (nat \<times> nat \<times> string) option" where
  \<comment> \<open>backtracking: the first month alternative after which a day matches\<close>
  "first_match [] = None"
| "first_match ((m, r) # alts) =
     (case day_match r of
        Some (d, r') \<Rightarrow> Some (m, d, r')
      | None \<Rightarrow> first_match alts)"

definition is_leap :: "nat \<Rightarrow> bool" where
  "is_leap y = (y mod 4 = 0 \<and> (y mod 100 \<noteq> 0 \<or> y mod 400 = 0))"

definition days_in_month :: "nat \<Rightarrow> nat \<Rightarrow> nat" where
  "days_in_month y m =
     (if m = 2 then (if is_leap y then 29 else 28)
      else if m = 4 \<or> m = 6 \<or> m = 9 \<or> m = 11 then 30 else 31)"

definition valid_date :: "date \<Rightarrow> bool" where
  \<comment> \<open>the dates \<open>datetime.date\<close> accepts\<close>
  "valid_date ymd = (case ymd of (y, m, d) \<Rightarrow>
     1 \<le> y \<and> y \<le> 9999 \<and> 1 \<le> m \<and> m \<le> 12 \<and> 1 \<le> d \<and> d \<le> days_in_month y m)"

definition strptime :: "string \<Rightarrow> date option" where
  "strptime s =
     (case s of
        y1 # y2 # y3 # y4 # r \<Rightarrow>
          (if list_all is_digit [y1, y2, y3, y4]
           then (case first_match (month_alts r) of
                   None \<Rightarrow> None
                 | Some (m, d, r') \<Rightarrow>
                     (let y = 1000 * digit_val y1 + 100 * digit_val y2 + 10 * digit_val y3
                                + digit_val y4
                      in if r' = [] \<and> valid_date (y, m, d) then Some (y, m, d) else None))
           else None)
      | _ \<Rightarrow> None)"

definition digit_char :: "nat \<Rightarrow> char" where
  "digit_char k = ''0123456789'' ! (k mod 10)"

definition year_str :: "nat \<Rightarrow> string" where
  \<comment> \<open>\<open>%Y\<close> as the C library of CPython 3.12 on Linux prints it: the year in decimal,
      not padded (\<open>999\<close>, not \<open>0999\<close>); for the years 1 to 9999 of \<open>datetime\<close>\<close>
  "year_str y =
     dropWhile (\<lambda>c. c = CHR ''0'')
       [digit_char (y div 1000), digit_char (y div 100), digit_char (y div 10), digit_char y]"

definition strftime :: "date \<Rightarrow> string list" where
  \<comment> \<open>the three segments of \<open>f"{dt:%Y/%m/%d}"\<close>: the year, and month and day padded to
      two digits\<close>
  "strftime ymd = (case ymd of (y, m, d) \<Rightarrow>
     [year_str y, [digit_char (m div 10), digit_char m], [digit_char (d div 10), digit_char d]])"

text \<open>
  A point in time is a number of microseconds since the epoch, the resolution of
  \<open>datetime\<close>. \<open>fromtimestamp\<close> follows \<open>datetime.fromtimestamp(t, tz=UTC)\<close>: it
  raises (here \<open>None\<close>) outside the years 1 to 9999, and otherwise gives the
  proleptic Gregorian date of the day the instant falls in.
\<close>

definition us_per_day :: int where
  "us_per_day = 86400000000"

definition min_timestamp :: int where
  \<comment> \<open>0001-01-01T00:00:00Z\<close>
  "min_timestamp = - 62135596800000000"

definition max_timestamp :: int where
  \<comment> \<open>9999-12-31T23:59:59.999999Z\<close>
  "max_timestamp = 253402300799999999"

definition civil_from_days :: "int \<Rightarrow> date" where
  \<comment> \<open>days since 1970-01-01 to (year, month, day)\<close>
  "civil_from_days z0 =
     (let z = z0 + 719468;
          era = z div 146097;
          doe = z - era * 146097;
          yoe = (doe - doe div 1460 + doe div 36524 - doe div 146096) div 365;
          doy = doe - (365 * yoe + yoe div 4 - yoe div 100);
          mp = (5 * doy + 2) div 153;
          d = doy - (153 * mp + 2) div 5 + 1;
          m = (if mp < 10 then mp + 3 else mp - 9);
          y = yoe + era * 400 + (if m \<le> 2 then 1 else 0)
      in (nat y, nat m, nat d))"

definition fromtimestamp :: "int \<Rightarrow> date option" where
  "fromtimestamp t =
     (if min_timestamp \<le> t \<and> t \<le> max_timestamp
      then Some (civil_from_days (t div us_per_day)) else None)"

section \<open>Glob patterns\<close>

text \<open>
  \<open>Path.glob(pattern, case_sensitive=False)\<close> with a one-segment pattern matches the
  names of a directory's entries against \<open>fnmatch.translate(pattern)\<close>, ignoring
  case: \<open>*\<close> is any run of characters, \<open>?\<close> any one character, \<open>[seq]\<close> one
  character of the set (characters and ranges \<open>a-z\<close>), \<open>[!seq]\<close> one character
  outside it, and a \<open>[\<close> that is never closed stands for itself. The pattern
  \<open>**\<close> is the recursive wildcard, and any other pattern that holds \<open>**\<close> is
  refused with a \<open>ValueError\<close> (CPython 3.12).
\<close>

datatype tok = Star | AnyChar | Lit char | Class bool "(char \<times> char) list"

fun class_items :: "string \<Rightarrow> (char \<times> char) list" where
  "class_items (c # h # d # r) =
     (if h = CHR ''-'' then (c, d) # class_items r else (c, c) # class_items (h # d # r))"
| "class_items (c # r) = (c, c) # class_items r"
| "class_items [] = []"

definition bracket :: "string \<Rightarrow> (bool \<times> (char \<times> char) list \<times> nat) option" where
  \<comment> \<open>the text after a \<open>[\<close>: negation, members and characters used up to the closing \<open>]\<close>\<close>
  "bracket p =
     (let neg = (case p of c # _ \<Rightarrow> c = CHR ''!'' | [] \<Rightarrow> False);
          q = (if neg then tl p else p);
          fst_close = (case q of c # _ \<Rightarrow> c = CHR '']'' | [] \<Rightarrow> False);
          q' = (if fst_close then tl q else q);
          pre = takeWhile (\<lambda>c. c \<noteq> CHR '']'') q'
      in if length pre < length q'
         then Some (neg, class_items ((if fst_close then '']'' else []) @ pre),
                    (if neg then 1 else 0) + (if fst_close then 1 else 0) + length pre + 1)
         else None)"

fun translate :: "string \<Rightarrow> tok list" where
  \<comment> \<open>\<open>fnmatch.translate\<close>\<close>
  "translate [] = []"
| "translate (c # p) =
     (if c = CHR ''*'' then Star # translate p
      else if c = CHR ''?'' then AnyChar # translate p
      else if c = CHR ''['' then
        (case bracket p of
           None \<Rightarrow> Lit c # translate p
         | Some (neg, items, k) \<Rightarrow> Class neg items # translate (drop k p))
      else Lit c # translate p)"

definition in_class :: "(char \<times> char) list \<Rightarrow> char \<Rightarrow> bool" where
  "in_class items c = list_ex (\<lambda>(lo, hi). in_range lo hi c) items"

fun tok_ok :: "tok \<Rightarrow> char \<Rightarrow> bool" where
  \<comment> \<open>one character against one pattern element, ignoring case\<close>
  "tok_ok Star c = True"
| "tok_ok AnyChar c = True"
| "tok_ok (Lit x) c = (lower_char x = lower_char c)"
| "tok_ok (Class neg items) c =
     (neg \<noteq> (in_class items c \<or> in_class items (lower_char c) \<or> in_class items (upper_char c)))"

fun tmatch :: "tok list \<Rightarrow> string \<Rightarrow> bool" where
  "tmatch [] s = (s = [])"
| "tmatch (Star # ts) [] = tmatch ts []"
| "tmatch (Star # ts) (c # s) = (tmatch ts (c # s) \<or> tmatch (Star # ts) s)"
| "tmatch (t # ts) [] = False"
| "tmatch (t # ts) (c # s) = (tok_ok t c \<and> tmatch ts s)"

definition fnmatch :: "string \<Rightarrow> string \<Rightarrow> bool" where
  \<comment> \<open>does the name match the pattern, ignoring case\<close>
  "fnmatch pat n = tmatch (translate pat) n"

section \<open>The file system\<close>

text \<open>
  The file system is an association list from paths to entries: a regular file
  with its modification time, or a directory. The empty path is the root, which is
  always a directory. Only regular files carry a modification time: \<open>ingest\<close>
  never asks for the time of anything else.
\<close>

datatype entry = File int | Dir

type_synonym fsys = "(path \<times> entry) list"

datatype error =
    MultipleRawMatches path   \<comment> \<open>the \<open>ValueError\<close> raised by \<open>_decide\<close>\<close>
  | DateOutOfRange            \<comment> \<open>\<open>fromtimestamp\<close> outside the years 1 to 9999\<close>
  | InvalidPattern            \<comment> \<open>the \<open>ValueError\<close> of \<open>glob\<close> for \<open>**\<close> inside a segment\<close>
  | OSError                   \<comment> \<open>a failing \<open>mkdir\<close>, \<open>rename\<close> or \<open>iterdir\<close>\<close>

definition path_exists :: "fsys \<Rightarrow> path \<Rightarrow> bool" where
  \<comment> \<open>\<open>Path.exists\<close>\<close>
  "path_exists fs p = (p = [] \<or> map_of fs p \<noteq> None)"

definition is_file :: "fsys \<Rightarrow> path \<Rightarrow> bool" where
  \<comment> \<open>\<open>Path.is_file\<close>\<close>
  "is_file fs p = (case map_of fs p of Some (File t) \<Rightarrow> True | _ \<Rightarrow> False)"

definition is_dir :: "fsys \<Rightarrow> path \<Rightarrow> bool" where
  \<comment> \<open>\<open>Path.is_dir\<close>\<close>
  "is_dir fs p = (p = [] \<or> map_of fs p = Some Dir)"

definition stat_mtime :: "fsys \<Rightarrow> path \<Rightarrow> int option" where
  \<comment> \<open>\<open>path.stat().st_mtime\<close> of a regular file; \<open>None\<close> is \<open>FileNotFoundError\<close>\<close>
  "stat_mtime fs p = (case map_of fs p of Some (File t) \<Rightarrow> Some t | _ \<Rightarrow> None)"

definition proper_name :: "string \<Rightarrow> bool" where
  \<comment> \<open>a name a directory listing can yield: not empty, not \<open>.\<close> and not \<open>..\<close>\<close>
  "proper_name n = (n \<noteq> [] \<and> n \<noteq> ''.'' \<and> n \<noteq> ''..'')"

definition iterdir :: "fsys \<Rightarrow> path \<Rightarrow> path list" where
  \<comment> \<open>\<open>Path.iterdir\<close>: the entries directly inside a directory, in enumeration order\<close>
  "iterdir fs d =
     remdups (filter (\<lambda>p. p \<noteq> [] \<and> butlast p = d \<and> proper_name (last p)) (map fst fs))"

fun has_two_stars :: "string \<Rightarrow> bool" where
  \<comment> \<open>\<open>'**' in pat\<close>\<close>
  "has_two_stars (a # b # r) = ((a = CHR ''*'' \<and> b = CHR ''*'') \<or> has_two_stars (b # r))"
| "has_two_stars r = False"

definition subdirs :: "fsys \<Rightarrow> path \<Rightarrow> path list" where
  \<comment> \<open>the directories below \<open>d\<close> that are reached through directories only\<close>
  "subdirs fs d =
     filter (\<lambda>p. length d < length p \<and> take (length d) p = d \<and>
                 list_all (\<lambda>k. is_dir fs (take k p) \<and> proper_name (p ! (k - 1)))
                   [Suc (length d)..<Suc (length p)])
       (remdups (map fst fs))"

definition glob :: "fsys \<Rightarrow> path \<Rightarrow> string \<Rightarrow> error + path list" where
  \<comment> \<open>\<open>list(d.glob(pat, case_sensitive=False))\<close> for a one-segment pattern: \<open>**\<close> gives
      \<open>d\<close> and the directories below it, another pattern holding \<open>**\<close> raises, and
      any other pattern gives the entries of \<open>d\<close> whose names match; nothing when
      \<open>d\<close> is not a directory. Only the number of paths is used by \<open>_decide\<close>.\<close>
  "glob fs d pat =
     (if pat = ''**'' then Inr (if is_dir fs d then d # subdirs fs d else [])
      else if has_two_stars pat then Inl InvalidPattern
      else Inr (if is_dir fs d then filter (\<lambda>p. fnmatch pat (pname p)) (iterdir fs d) else []))"

definition ancestors :: "path \<Rightarrow> path list" where
  \<comment> \<open>the non-empty prefixes of a path, shortest first, the path itself last\<close>
  "ancestors p = map (\<lambda>k. take k p) [1..<Suc (length p)]"

definition mkdir_p :: "fsys \<Rightarrow> path \<Rightarrow> error + fsys" where
  \<comment> \<open>\<open>p.mkdir(parents=True, exist_ok=True)\<close>: fails when a regular file is in the way\<close>
  "mkdir_p fs p =
     (if list_ex (is_file fs) (ancestors p) then Inl OSError
      else Inr (fs @ map (\<lambda>q. (q, Dir)) (filter (\<lambda>q. \<not> path_exists fs q) (ancestors p))))"

definition rename :: "path \<Rightarrow> path \<Rightarrow> fsys \<Rightarrow> error + fsys" where
  \<comment> \<open>\<open>Path.rename(source, destination)\<close> of a regular file: the destination is
      replaced when it is a file; a directory there, or no parent directory, fails\<close>
  "rename src dst fs =
     (case map_of fs src of
        Some (File t) \<Rightarrow>
          (if is_dir fs dst \<or> \<not> is_dir fs (parent dst) then Inl OSError
           else Inr ((dst, File t) # filter (\<lambda>(q, e). q \<noteq> src \<and> q \<noteq> dst) fs))
      | _ \<Rightarrow> Inl OSError)"

section \<open>The importer\<close>

record importer =
  library :: path
  quarantine :: path
  move :: "path \<Rightarrow> path \<Rightarrow> fsys \<Rightarrow> error + fsys"
  newest_trusted_mtime :: int

text \<open>
  What a call can change: the file system, and the two cached properties \<open>trash\<close>
  and \<open>confirm_trash\<close> of the importer, which create their directory the first
  time they are read. An exception leaves the state as it was when it was raised.
\<close>

record state =
  fs :: fsys
  trash_cached :: bool
  confirm_cached :: bool

definition default_cutoff :: "int \<Rightarrow> int" where
  \<comment> \<open>the factory of \<open>_newest_trusted_mtime\<close>: \<open>datetime.now(UTC) - timedelta(days=3)\<close>,
      \<open>now\<close> being the instant at which the importer is constructed\<close>
  "default_cutoff now = now - 3 * us_per_day"

definition real_importer :: "path \<Rightarrow> path \<Rightarrow> int \<Rightarrow> importer" where
  \<comment> \<open>\<open>Importer(library, quarantine, newest_trusted_mtime=cutoff)\<close>: the move function
      is \<open>Path.rename\<close>\<close>
  "real_importer lib quar cutoff =
     \<lparr>library = lib, quarantine = quar, move = rename, newest_trusted_mtime = cutoff\<rparr>"

definition default_importer :: "path \<Rightarrow> path \<Rightarrow> int \<Rightarrow> importer" where
  \<comment> \<open>\<open>Importer(library, quarantine)\<close>, constructed at \<open>now\<close>\<close>
  "default_importer lib quar now = real_importer lib quar (default_cutoff now)"

definition dry_run :: "path \<Rightarrow> path \<Rightarrow> int \<Rightarrow> importer" where
  \<comment> \<open>\<open>Importer.dry_run(library, quarantine)\<close>, constructed at \<open>now\<close>: the move function
      does nothing, the cutoff is the default one\<close>
  "dry_run lib quar now =
     \<lparr>library = lib, quarantine = quar, move = (\<lambda>source destination f. Inr f),
      newest_trusted_mtime = default_cutoff now\<rparr>"

definition trash_dir :: "importer \<Rightarrow> path" where
  "trash_dir imp = joinpath (quarantine imp) ''trash''"

definition confirm_trash_dir :: "importer \<Rightarrow> path" where
  \<comment> \<open>\<open>self.quarantine / "confirm/trash"\<close>\<close>
  "confirm_trash_dir imp = joinpath (joinpath (quarantine imp) ''confirm'') ''trash''"

definition trash :: "importer \<Rightarrow> state \<Rightarrow> error + (path \<times> state)" where
  "trash imp st =
     (if trash_cached st then Inr (trash_dir imp, st)
      else (case mkdir_p (fs st) (trash_dir imp) of
              Inl e \<Rightarrow> Inl e
            | Inr f \<Rightarrow> Inr (trash_dir imp, st\<lparr>fs := f, trash_cached := True\<rparr>)))"

definition confirm_trash :: "importer \<Rightarrow> state \<Rightarrow> error + (path \<times> state)" where
  "confirm_trash imp st =
     (if confirm_cached st then Inr (confirm_trash_dir imp, st)
      else (case mkdir_p (fs st) (confirm_trash_dir imp) of
              Inl e \<Rightarrow> Inl e
            | Inr f \<Rightarrow> Inr (confirm_trash_dir imp, st\<lparr>fs := f, confirm_cached := True\<rparr>)))"

definition dated :: "path \<Rightarrow> date \<Rightarrow> string \<Rightarrow> path" where
  \<comment> \<open>\<open>root / f"{dt:%Y/%m/%d}/{name}"\<close>\<close>
  "dated root dt name = joinpath (root @ strftime dt) name"

definition library_destination_for :: "importer \<Rightarrow> path \<Rightarrow> fsys \<Rightarrow> error + path" where
  "library_destination_for imp path f =
     (let name = pname path;
          parts = split_on CHR ''_'' name
      in if length parts < 2 \<or> \<not> isdigit (parts ! 1) then
           (case stat_mtime f path of
              None \<Rightarrow> Inr (joinpath (quarantine imp) name)
            | Some t \<Rightarrow>
                (case fromtimestamp t of
                   None \<Rightarrow> Inl DateOutOfRange
                 | Some dt \<Rightarrow>
                     if t > newest_trusted_mtime imp then Inr (joinpath (quarantine imp) name)
                     else Inr (dated (library imp) dt name)))
         else
           (case strptime (parts ! 1) of
              None \<Rightarrow> Inr (joinpath (quarantine imp) name)
            | Some dt \<Rightarrow> Inr (dated (library imp) dt name)))"

definition to_trash :: "importer \<Rightarrow> string \<Rightarrow> state \<Rightarrow> error + (path \<times> state)" where
  \<comment> \<open>\<open>return self.trash / name\<close>\<close>
  "to_trash imp name st =
     (case trash imp st of
        Inl e \<Rightarrow> Inl e
      | Inr (t, st') \<Rightarrow> Inr (joinpath t name, st'))"

definition decide_place :: "importer \<Rightarrow> path \<Rightarrow> state \<Rightarrow> error + (path \<times> state)" where
  \<comment> \<open>the last three lines of \<open>_decide\<close>\<close>
  "decide_place imp path st =
     (case library_destination_for imp path (fs st) of
        Inl e \<Rightarrow> Inl e
      | Inr dest \<Rightarrow>
          (case mkdir_p (fs st) (parent dest) of
             Inl e \<Rightarrow> Inl e
           | Inr f \<Rightarrow> Inr (dest, st\<lparr>fs := f\<rparr>)))"

definition decide_copy :: "importer \<Rightarrow> path \<Rightarrow> path \<Rightarrow> state \<Rightarrow> error + (path \<times> state)" where
  \<comment> \<open>\<open>_decide\<close> from the numbered-copy check on\<close>
  "decide_copy imp path new_media st =
     (case rpartition_tilde (stem path) of (stem', tilde) \<Rightarrow>
        if isdigit tilde then
          (if path_exists (fs st) (joinpath new_media (stem' @ suffix path))
           then to_trash imp (pname path) st
           else (case library_destination_for imp path (fs st) of
                   Inl e \<Rightarrow> Inl e
                 | Inr maybe \<Rightarrow>
                     (case glob (fs st) (parent maybe) (stem' @ ''*'') of
                        Inl e \<Rightarrow> Inl e
                      | Inr globs \<Rightarrow>
                          if length globs = 1 then to_trash imp (pname path) st
                          else if globs \<noteq> [] then Inl (MultipleRawMatches path)
                          else decide_place imp path st)))
        else decide_place imp path st)"

definition decide_raw :: "importer \<Rightarrow> path \<Rightarrow> path \<Rightarrow> state \<Rightarrow> error + (path \<times> state)" where
  \<comment> \<open>\<open>_decide\<close> from the RAW check on\<close>
  "decide_raw imp path new_media st =
     (if lower (suffix path) \<in> {''.jpg'', ''.jpeg''} then
        (case glob (fs st) new_media (stem path @ ''.dng'') of
           Inl e \<Rightarrow> Inl e
         | Inr found \<Rightarrow>
             (let raws = length found
              in if raws = 1 then to_trash imp (pname path) st
                 else if raws > 1 then Inl (MultipleRawMatches path)
                 else (case library_destination_for imp path (fs st) of
                         Inl e \<Rightarrow> Inl e
                       | Inr dest \<Rightarrow>
                           (case glob (fs st) (parent dest) (stem path @ ''.dng'') of
                              Inl e \<Rightarrow> Inl e
                            | Inr found' \<Rightarrow>
                                (let raws = length found'
                                 in if raws = 1 then to_trash imp (pname path) st
                                    else if raws > 1 then Inl (MultipleRawMatches path)
                                    else decide_copy imp path new_media st)))))
      else decide_copy imp path new_media st)"

definition decide :: "importer \<Rightarrow> path \<Rightarrow> path \<Rightarrow> state \<Rightarrow> error + (path \<times> state)" where
  \<comment> \<open>\<open>Importer._decide\<close>\<close>
  "decide imp path new_media st =
     (let name = pname path
      in if take 1 name = ''.'' then
           (let rest = dropWhile (\<lambda>c. c = CHR ''.'') name
            in if rest = ''DS_Store'' then to_trash imp name st
               else (case confirm_trash imp st of
                       Inl e \<Rightarrow> Inl e
                     | Inr (c, st') \<Rightarrow> Inr (joinpath c rest, st')))
         else decide_raw imp path new_media st)"

section \<open>Ingest\<close>

text \<open>
  \<open>Mover.move\<close> calls the move function and appends to the journal; \<open>ingest\<close> runs
  over the entries the staging directory had when it was listed. The result is the
  manifest together with the state reached, or the exception together with the
  state in which it was raised.
\<close>

type_synonym manifest = "(string \<times> path) list"

fun ingest_loop ::
  "importer \<Rightarrow> path \<Rightarrow> path list \<Rightarrow> manifest \<Rightarrow> state \<Rightarrow> (error \<times> state) + (manifest \<times> state)" where
  "ingest_loop imp new_media [] journal st = Inr (journal, st)"
| "ingest_loop imp new_media (path # paths) journal st =
     (if \<not> is_file (fs st) path then ingest_loop imp new_media paths journal st
      else (case decide imp path new_media st of
              Inl e \<Rightarrow> Inl (e, st)
            | Inr (dest, st') \<Rightarrow>
                (case move imp path dest (fs st') of
                   Inl e \<Rightarrow> Inl (e, st')
                 | Inr f \<Rightarrow>
                     ingest_loop imp new_media paths (journal @ [(pname path, dest)])
                       (st'\<lparr>fs := f\<rparr>))))"

definition ingest :: "importer \<Rightarrow> path \<Rightarrow> state \<Rightarrow> (error \<times> state) + (manifest \<times> state)" where
  \<comment> \<open>\<open>Importer.ingest\<close>\<close>
  "ingest imp new_media st =
     (if is_dir (fs st) new_media
      then ingest_loop imp new_media (iterdir (fs st) new_media) [] st
      else Inl (OSError, st))"

definition fresh :: "fsys \<Rightarrow> state" where
  \<comment> \<open>a newly constructed importer has read neither cached property\<close>
  "fresh f = \<lparr>fs = f, trash_cached = False, confirm_cached = False\<rparr>"

section \<open>Vocabulary of the properties\<close>

definition destination :: "error + (path \<times> state) \<Rightarrow> error + path" where
  \<comment> \<open>what \<open>_decide\<close> returns or raises, without the state\<close>
  "destination r = map_sum id fst r"

definition can_mkdir :: "fsys \<Rightarrow> path \<Rightarrow> bool" where
  \<comment> \<open>no regular file sits at the path or above it\<close>
  "can_mkdir f p = (\<not> list_ex (is_file f) (ancestors p))"

definition trash_ready :: "importer \<Rightarrow> state \<Rightarrow> bool" where
  "trash_ready imp st = (trash_cached st \<or> can_mkdir (fs st) (trash_dir imp))"

definition confirm_ready :: "importer \<Rightarrow> state \<Rightarrow> bool" where
  "confirm_ready imp st = (confirm_cached st \<or> can_mkdir (fs st) (confirm_trash_dir imp))"

definition spec_dotfile_destination :: "importer \<Rightarrow> string \<Rightarrow> path" where
  \<comment> \<open>the dotfile rule as the specification words it: one leading dot is removed\<close>
  "spec_dotfile_destination imp name =
     (if tl name = ''DS_Store'' then quarantine imp @ [''trash'', name]
      else quarantine imp @ [''confirm'', ''trash'', tl name])"

definition raw_rule_applies :: "path \<Rightarrow> bool" where
  \<comment> \<open>the test guarding the RAW check\<close>
  "raw_rule_applies path = (lower (suffix path) \<in> {''.jpg'', ''.jpeg''})"

definition original_stem :: "path \<Rightarrow> string" where
  \<comment> \<open>the stem before its last tilde\<close>
  "original_stem path = fst (rpartition_tilde (stem path))"

definition copy_rule_applies :: "path \<Rightarrow> bool" where
  \<comment> \<open>the test guarding the numbered-copy check\<close>
  "copy_rule_applies path = isdigit (snd (rpartition_tilde (stem path)))"

definition not_duplicate :: "path \<Rightarrow> path \<Rightarrow> fsys \<Rightarrow> path \<Rightarrow> bool" where
  \<comment> \<open>neither check finds anything, \<open>dest\<close> being the file's library destination\<close>
  "not_duplicate path new_media f dest =
     ((raw_rule_applies path \<longrightarrow>
         glob f new_media (stem path @ ''.dng'') = Inr [] \<and>
         glob f (parent dest) (stem path @ ''.dng'') = Inr []) \<and>
      (copy_rule_applies path \<longrightarrow>
         \<not> path_exists f (joinpath new_media (original_stem path @ suffix path)) \<and>
         glob f (parent dest) (original_stem path @ ''*'') = Inr []))"

definition no_filename_date :: "path \<Rightarrow> bool" where
  \<comment> \<open>the test that sends \<open>_library_destination_for\<close> to the modification time\<close>
  "no_filename_date path =
     (length (split_on CHR ''_'' (pname path)) < 2 \<or> \<not> isdigit (split_on CHR ''_'' (pname path) ! 1))"

definition invalid_filename_date :: "path \<Rightarrow> bool" where
  \<comment> \<open>a numeric second segment that \<open>strptime\<close> rejects\<close>
  "invalid_filename_date path =
     (\<not> no_filename_date path \<and> strptime (split_on CHR ''_'' (pname path) ! 1) = None)"

definition in_datetime_range :: "int \<Rightarrow> bool" where
  \<comment> \<open>the instants \<open>datetime\<close> represents\<close>
  "in_datetime_range t = (min_timestamp \<le> t \<and> t \<le> max_timestamp)"

definition mtime_unknown :: "importer \<Rightarrow> fsys \<Rightarrow> path \<Rightarrow> bool" where
  \<comment> \<open>the file has vanished, or is a regular file newer than the trust cutoff\<close>
  "mtime_unknown imp f path =
     (case map_of f path of
        None \<Rightarrow> True
      | Some (File t) \<Rightarrow> in_datetime_range t \<and> t > newest_trusted_mtime imp
      | Some Dir \<Rightarrow> False)"

definition magic_free :: "string \<Rightarrow> bool" where
  \<comment> \<open>no character that \<open>fnmatch\<close> reads as a wildcard\<close>
  "magic_free s = (CHR ''*'' \<notin> set s \<and> CHR ''?'' \<notin> set s \<and> CHR ''['' \<notin> set s)"


definition ci_prefix_matches :: "fsys \<Rightarrow> path \<Rightarrow> string \<Rightarrow> path list" where
  \<comment> \<open>the entries of a directory whose name starts with \<open>s\<close>, ignoring case\<close>
  "ci_prefix_matches f d s =
     (if is_dir f d
      then filter (\<lambda>p. length s \<le> length (pname p) \<and> lower (take (length s) (pname p)) = lower s)
             (iterdir f d)
      else [])"

definition ci_raw_matches :: "fsys \<Rightarrow> path \<Rightarrow> string \<Rightarrow> path list" where
  \<comment> \<open>the entries of a directory named \<open>s.dng\<close>, ignoring case\<close>
  "ci_raw_matches f d s =
     (if is_dir f d
      then filter (\<lambda>p. lower (pname p) = lower (s @ ''.dng'')) (iterdir f d)
      else [])"

definition spec_prefix_matches :: "fsys \<Rightarrow> path \<Rightarrow> string \<Rightarrow> path list" where
  \<comment> \<open>as the specification words the numbered-copy search: names starting with \<open>s\<close>\<close>
  "spec_prefix_matches f d s =
     (if is_dir f d then filter (\<lambda>p. take (length s) (pname p) = s) (iterdir f d) else [])"

definition supported_move :: "importer \<Rightarrow> bool" where
  \<comment> \<open>the importer moves with \<open>Path.rename\<close> or is a dry run\<close>
  "supported_move imp = (move imp = rename \<or> move imp = (\<lambda>source destination f. Inr f))"

definition plain_file :: "path \<Rightarrow> bool" where
  \<comment> \<open>a dotfile, or a file that neither duplicate check looks at\<close>
  "plain_file p = (take 1 (pname p) = ''.'' \<or> (\<not> raw_rule_applies p \<and> \<not> copy_rule_applies p))"

definition outside :: "path \<Rightarrow> path \<Rightarrow> bool" where
  \<comment> \<open>the directory \<open>d\<close> is neither \<open>root\<close> nor below it\<close>
  "outside root d = (take (length root) d \<noteq> root)"

definition same_roots :: "importer \<Rightarrow> importer \<Rightarrow> bool" where
  \<comment> \<open>two importers that differ at most in their move function\<close>
  "same_roots a b = (library a = library b \<and> quarantine a = quarantine b
     \<and> newest_trusted_mtime a = newest_trusted_mtime b)"

definition result_state :: "(error \<times> state) + (manifest \<times> state) \<Rightarrow> state" where
  \<comment> \<open>the state \<open>ingest\<close> leaves behind, whether it returns or raises\<close>
  "result_state r = (case r of Inl (e, s) \<Rightarrow> s | Inr (m, s) \<Rightarrow> s)"


section \<open>Properties\<close>

subsection \<open>Helper facts\<close>

lemma destination_Inr [simp]: "destination (Inr (p, s)) = Inr p"
  by (simp add: destination_def)

lemma destination_Inl [simp]: "destination (Inl e) = Inl e"
  by (simp add: destination_def)

lemma trash_dir_eq: "trash_dir imp = quarantine imp @ [''trash'']"
  by (simp add: trash_dir_def joinpath_def)

lemma confirm_trash_dir_eq: "confirm_trash_dir imp = quarantine imp @ [''confirm'', ''trash'']"
  by (simp add: confirm_trash_dir_def joinpath_def)

lemma to_trash_ready:
  "trash_ready imp st \<Longrightarrow> \<exists>st'. to_trash imp name st = Inr (joinpath (trash_dir imp) name, st')"
  by (auto simp: to_trash_def trash_def trash_ready_def can_mkdir_def mkdir_p_def)

lemma confirm_trash_ready:
  "confirm_ready imp st \<Longrightarrow> \<exists>st'. confirm_trash imp st = Inr (confirm_trash_dir imp, st')"
  by (auto simp: confirm_trash_def confirm_ready_def can_mkdir_def mkdir_p_def)

subsection \<open>Dotfiles\<close>

text \<open>
  C4 (as amended). For a name beginning with a dot, let \<open>rest\<close> be the name with
  all of its leading dots removed (\<open>lstrip\<close>). If \<open>rest\<close> is \<open>DS_Store\<close> the
  destination is \<open><quarantine>/trash/<name>\<close>, the name kept whole; otherwise it is
  \<open><quarantine>/confirm/trash/<rest>\<close>. Neither the staging directory nor the
  library is consulted, so the rule comes before the duplicate and date rules.
  The directory concerned must be creatable.
\<close>

theorem C4_dotfile:
  assumes dot: "take 1 (pname path) = ''.''"
  shows "(dropWhile (\<lambda>c. c = CHR ''.'') (pname path) = ''DS_Store'' \<and> trash_ready imp st \<longrightarrow>
           destination (decide imp path new_media st) = Inr (quarantine imp @ [''trash'', pname path]))
       \<and> (dropWhile (\<lambda>c. c = CHR ''.'') (pname path) \<noteq> ''DS_Store'' \<and> confirm_ready imp st \<longrightarrow>
           destination (decide imp path new_media st) =
             Inr (joinpath (quarantine imp @ [''confirm'', ''trash''])
                    (dropWhile (\<lambda>c. c = CHR ''.'') (pname path))))"
proof (intro conjI impI)
  assume a: "dropWhile (\<lambda>c. c = CHR ''.'') (pname path) = ''DS_Store'' \<and> trash_ready imp st"
  then obtain st' where t: "to_trash imp (pname path) st = Inr (joinpath (trash_dir imp) (pname path), st')"
    using to_trash_ready by blast
  from a have ne: "pname path \<noteq> [] \<and> pname path \<noteq> ''.''" by auto
  show "destination (decide imp path new_media st) = Inr (quarantine imp @ [''trash'', pname path])"
    using dot a t ne by (simp add: decide_def joinpath_def trash_dir_eq)
next
  assume a: "dropWhile (\<lambda>c. c = CHR ''.'') (pname path) \<noteq> ''DS_Store'' \<and> confirm_ready imp st"
  then obtain st' where t: "confirm_trash imp st = Inr (confirm_trash_dir imp, st')"
    using confirm_trash_ready by blast
  show "destination (decide imp path new_media st) =
           Inr (joinpath (quarantine imp @ [''confirm'', ''trash''])
                  (dropWhile (\<lambda>c. c = CHR ''.'') (pname path)))"
    using dot a t by (simp add: decide_def confirm_trash_dir_eq)
qed

theorem C4_dotfile_witness:
  "take 1 (pname [''new'', ''.hiddenfile.jpg'']) = ''.''
   \<and> dropWhile (\<lambda>c. c = CHR ''.'') (pname [''new'', ''.hiddenfile.jpg'']) \<noteq> ''DS_Store''
   \<and> confirm_ready (real_importer [''lib''] [''q''] 0) (fresh [])
   \<and> destination (decide (real_importer [''lib''] [''q''] 0) [''new'', ''.hiddenfile.jpg''] [''new''] (fresh []))
       = Inr [''q'', ''confirm'', ''trash'', ''hiddenfile.jpg'']"
  using C4_dotfile [of "[''new'', ''.hiddenfile.jpg'']" "real_importer [''lib''] [''q''] 0" "fresh []" "[''new'']"]
  by (simp add: pname_def confirm_ready_def can_mkdir_def fresh_def real_importer_def joinpath_def
      is_file_def list_ex_iff)

text \<open>
  A name with two leading dots: the specification's wording sends \<open>..DS_Store\<close> to
  \<open>confirm/trash/.DS_Store\<close>, the code sends it to \<open>trash/..DS_Store\<close>.
\<close>

theorem C4_counterexample:
  "destination (decide (real_importer [''lib''] [''q''] 0) [''new'', ''..DS_Store''] [''new''] (fresh []))
     = Inr [''q'', ''trash'', ''..DS_Store'']
   \<and> destination (decide (real_importer [''lib''] [''q''] 0) [''new'', ''..DS_Store''] [''new''] (fresh []))
     \<noteq> Inr (spec_dotfile_destination (real_importer [''lib''] [''q''] 0) ''..DS_Store'')"
  by (simp add: decide_def pname_def to_trash_def trash_def fresh_def trash_dir_def joinpath_def
      real_importer_def mkdir_p_def ancestors_def is_file_def path_exists_def
      spec_dotfile_destination_def)

subsection \<open>The shape of a decision\<close>

lemma to_trash_Inr:
  "to_trash imp name st = Inr (d, st') \<Longrightarrow> d = joinpath (trash_dir imp) name"
  by (auto simp: to_trash_def trash_def split: if_splits sum.splits)

lemma decide_place_Inr:
  "decide_place imp path st = Inr (d, st') \<Longrightarrow> library_destination_for imp path (fs st) = Inr d"
  by (auto simp: decide_place_def split: sum.splits)

lemma decide_copy_Inr:
  "decide_copy imp path new_media st = Inr (d, st') \<Longrightarrow>
     d = joinpath (trash_dir imp) (pname path) \<or> library_destination_for imp path (fs st) = Inr d"
  by (auto simp: decide_copy_def Let_def split: prod.splits if_splits sum.splits
      dest: to_trash_Inr decide_place_Inr)

lemma decide_raw_Inr:
  "decide_raw imp path new_media st = Inr (d, st') \<Longrightarrow>
     d = joinpath (trash_dir imp) (pname path) \<or> library_destination_for imp path (fs st) = Inr d"
  by (auto simp: decide_raw_def Let_def split: if_splits sum.splits
      dest: to_trash_Inr decide_copy_Inr)

lemma decide_nondot:
  "take 1 (pname path) \<noteq> ''.'' \<Longrightarrow> decide imp path new_media st = decide_raw imp path new_media st"
  by (simp add: decide_def)

lemma decide_Inr:
  "take 1 (pname path) \<noteq> ''.'' \<Longrightarrow> decide imp path new_media st = Inr (d, st') \<Longrightarrow>
     d = joinpath (trash_dir imp) (pname path) \<or> library_destination_for imp path (fs st) = Inr d"
  by (auto simp: decide_nondot dest: decide_raw_Inr)

lemma decide_place_ok:
  "library_destination_for imp path (fs st) = Inr dest \<Longrightarrow> can_mkdir (fs st) (parent dest) \<Longrightarrow>
     destination (decide_place imp path st) = Inr dest"
  by (simp add: decide_place_def can_mkdir_def mkdir_p_def)

lemma decide_not_duplicate:
  assumes "take 1 (pname path) \<noteq> ''.''"
    and "library_destination_for imp path (fs st) = Inr dest"
    and "not_duplicate path new_media (fs st) dest"
  shows "decide imp path new_media st = decide_place imp path st"
  using assms
  by (auto simp: decide_nondot decide_raw_def decide_copy_def not_duplicate_def raw_rule_applies_def
      copy_rule_applies_def original_stem_def Let_def split: prod.splits)

subsection \<open>Dated names\<close>







subsection \<open>The digits of a date\<close>

lemma digit_cases:
  assumes "is_digit c"
  shows "c \<in> set ''0123456789''"
proof -
  define n where "n = (of_char c :: nat)"
  have "48 \<le> n \<and> n \<le> 57" using assms unfolding is_digit_def n_def by simp
  then have "n = 48 \<or> n = 49 \<or> n = 50 \<or> n = 51 \<or> n = 52 \<or> n = 53 \<or> n = 54
      \<or> n = 55 \<or> n = 56 \<or> n = 57"
    by arith
  then have "(of_char c :: nat) \<in> {48, 49, 50, 51, 52, 53, 54, 55, 56, 57}"
    unfolding n_def by blast
  then have "(of_char c :: nat) \<in> of_char ` set ''0123456789''"
    by simp
  then obtain d where "d \<in> set ''0123456789''" "(of_char c :: nat) = of_char d"
    by blast
  then show ?thesis by simp
qed

lemma digit_char_digit_val: "is_digit c \<Longrightarrow> digit_char (digit_val c) = c"
  using digit_cases [of c] by (auto simp: digit_char_def digit_val_def)

lemma digit_val_lt: "is_digit c \<Longrightarrow> digit_val c < 10"
  by (auto simp: is_digit_def digit_val_def)







lemma digit_val_literals:
  "digit_val CHR ''0'' = 0" "digit_val CHR ''1'' = 1" "digit_val CHR ''3'' = 3"
  by (simp_all add: digit_val_def)








lemma digit_of_val: "is_digit c \<Longrightarrow> digit_val c = k \<Longrightarrow> c = digit_char k"
  using digit_char_digit_val [of c] by simp

lemma in_range_val:
  assumes "is_digit c" and "is_digit lo" and "is_digit hi"
  shows "in_range lo hi c \<longleftrightarrow> digit_val lo \<le> digit_val c \<and> digit_val c \<le> digit_val hi"
  using assms by (auto simp: in_range_def is_digit_def digit_val_def)

lemma is_digit_literals:
  "is_digit CHR ''0''" "is_digit CHR ''1''" "is_digit CHR ''2''" "is_digit CHR ''3''"
  "is_digit CHR ''9''"
  by (simp_all add: is_digit_def)

lemma digit_val_literals2: "digit_val CHR ''2'' = 2" "digit_val CHR ''9'' = 9"
  by (simp_all add: digit_val_def)

lemma day_match_valid:
  assumes g: "is_digit g" and h: "is_digit h"
    and lo: "1 \<le> 10 * digit_val g + digit_val h" and hi: "10 * digit_val g + digit_val h \<le> 31"
  shows "day_match [g, h] = Some (10 * digit_val g + digit_val h, [])"
proof -
  have lt: "digit_val g < 10" "digit_val h < 10" using g h by (simp_all add: digit_val_lt)
  have g3: "g = CHR ''3'' \<longleftrightarrow> digit_val g = 3"
    using digit_of_val [OF g, of 3] by (auto simp: digit_val_literals digit_char_def)
  have g0: "g = CHR ''0'' \<longleftrightarrow> digit_val g = 0"
    using digit_of_val [OF g, of 0] by (auto simp: digit_val_literals digit_char_def)
  have r01: "in_range CHR ''0'' CHR ''1'' h \<longleftrightarrow> digit_val h \<le> 1"
    using in_range_val [OF h is_digit_literals(1,2)] by (simp add: digit_val_literals)
  have r12: "in_range CHR ''1'' CHR ''2'' g \<longleftrightarrow> 1 \<le> digit_val g \<and> digit_val g \<le> 2"
    using in_range_val [OF g is_digit_literals(2,3)] by (simp add: digit_val_literals digit_val_literals2)
  have r19: "in_range CHR ''1'' CHR ''9'' h \<longleftrightarrow> 1 \<le> digit_val h"
    using in_range_val [OF h is_digit_literals(2,5)] lt by (simp add: digit_val_literals digit_val_literals2)
  consider "digit_val g = 3" "digit_val h \<le> 1" | "digit_val g = 1 \<or> digit_val g = 2"
    | "digit_val g = 0" "1 \<le> digit_val h"
    using lo hi lt by arith
  then show ?thesis
  proof cases
    case 1
    then show ?thesis by (simp add: g3 r01)
  next
    case 2
    then have "\<not> (g = CHR ''3'')" using g3 by auto
    with 2 show ?thesis using h r12 by auto
  next
    case 3
    then have "\<not> (g = CHR ''3'')" "\<not> in_range CHR ''1'' CHR ''2'' g" using g3 r12 by auto
    with 3 show ?thesis using g0 r19 by simp
  qed
qed

lemma first_match_valid:
  assumes e: "is_digit e" and f: "is_digit f" and g: "is_digit g" and h: "is_digit h"
    and mlo: "1 \<le> 10 * digit_val e + digit_val f" and mhi: "10 * digit_val e + digit_val f \<le> 12"
    and lo: "1 \<le> 10 * digit_val g + digit_val h" and hi: "10 * digit_val g + digit_val h \<le> 31"
  shows "first_match (month_alts [e, f, g, h])
           = Some (10 * digit_val e + digit_val f, 10 * digit_val g + digit_val h, [])"
proof -
  have lt: "digit_val e < 10" "digit_val f < 10" using e f by (simp_all add: digit_val_lt)
  have dm: "day_match [g, h] = Some (10 * digit_val g + digit_val h, [])"
    by (rule day_match_valid [OF g h lo hi])
  have e1: "e = CHR ''1'' \<longleftrightarrow> digit_val e = 1"
    using digit_of_val [OF e, of 1] by (auto simp: digit_val_literals digit_char_def)
  have e0: "e = CHR ''0'' \<longleftrightarrow> digit_val e = 0"
    using digit_of_val [OF e, of 0] by (auto simp: digit_val_literals digit_char_def)
  have r02: "in_range CHR ''0'' CHR ''2'' f \<longleftrightarrow> digit_val f \<le> 2"
    using in_range_val [OF f is_digit_literals(1,3)] by (simp add: digit_val_literals digit_val_literals2)
  have r19: "in_range CHR ''1'' CHR ''9'' f \<longleftrightarrow> 1 \<le> digit_val f"
    using in_range_val [OF f is_digit_literals(2,5)] lt by (simp add: digit_val_literals digit_val_literals2)
  consider "digit_val e = 1" "digit_val f \<le> 2" | "digit_val e = 0" "1 \<le> digit_val f"
    using mlo mhi lt by arith
  then show ?thesis
  proof cases
    case 1
    then show ?thesis using dm by (simp add: e1 r02 del: day_match.simps)
  next
    case 2
    then have "e \<noteq> CHR ''1''" using e1 by auto
    with 2 show ?thesis using dm by (simp add: e0 r19 del: day_match.simps)
  qed
qed

lemma strptime_eight_valid:
  assumes dig: "list_all is_digit [a, b, c, d, e, f, g, h]"
    and valid: "valid_date (1000 * digit_val a + 100 * digit_val b + 10 * digit_val c + digit_val d,
                            10 * digit_val e + digit_val f, 10 * digit_val g + digit_val h)"
  shows "strptime [a, b, c, d, e, f, g, h]
           = Some (1000 * digit_val a + 100 * digit_val b + 10 * digit_val c + digit_val d,
                   10 * digit_val e + digit_val f, 10 * digit_val g + digit_val h)"
proof -
  from dig have digs: "is_digit a" "is_digit b" "is_digit c" "is_digit d"
    "is_digit e" "is_digit f" "is_digit g" "is_digit h"
    by simp_all
  have dim: "days_in_month y m \<le> 31" for y m
    by (simp add: days_in_month_def)
  have b: "1 \<le> 10 * digit_val e + digit_val f" "10 * digit_val e + digit_val f \<le> 12"
    "1 \<le> 10 * digit_val g + digit_val h" "10 * digit_val g + digit_val h \<le> 31"
    using valid dim [of "1000 * digit_val a + 100 * digit_val b + 10 * digit_val c + digit_val d"
        "10 * digit_val e + digit_val f"]
    by (auto simp: valid_date_def)
  have fm: "first_match (month_alts [e, f, g, h])
           = Some (10 * digit_val e + digit_val f, 10 * digit_val g + digit_val h, [])"
    by (rule first_match_valid [OF digs(5-8) b])
  show ?thesis
    using digs valid fm by (simp add: strptime_def del: month_alts.simps)
qed

subsection \<open>The destination of a dated name\<close>





subsection \<open>Unfolding sets for concrete inputs\<close>

lemmas name_defs = pname_def stem_def suffix_def dot_index_def rpartition_tilde_def isdigit_def
  is_digit_def lower_def is_upper_def is_lower_def

lemmas fs_defs = glob_def iterdir_def proper_name_def is_dir_def is_file_def path_exists_def stat_mtime_def
  fnmatch_def mkdir_p_def ancestors_def parent_def joinpath_def bracket_def in_class_def in_range_def

lemmas date_defs = strptime_def valid_date_def days_in_month_def is_leap_def digit_val_def
  strftime_def year_str_def digit_char_def fromtimestamp_def civil_from_days_def min_timestamp_def
  max_timestamp_def us_per_day_def

lemmas decide_defs = decide_def decide_raw_def decide_copy_def decide_place_def to_trash_def
  trash_def confirm_trash_def trash_dir_def confirm_trash_dir_def library_destination_for_def
  dated_def fresh_def real_importer_def dry_run_def

subsection \<open>Names without a usable date\<close>

lemma ldf_invalid:
  "invalid_filename_date path \<Longrightarrow>
     library_destination_for imp path f = Inr (joinpath (quarantine imp) (pname path))"
  by (simp add: invalid_filename_date_def no_filename_date_def library_destination_for_def Let_def)

lemma ldf_unknown:
  "no_filename_date path \<Longrightarrow> mtime_unknown imp f path \<Longrightarrow>
     library_destination_for imp path f = Inr (joinpath (quarantine imp) (pname path))"
  by (auto simp: no_filename_date_def mtime_unknown_def library_destination_for_def Let_def
      stat_mtime_def fromtimestamp_def in_datetime_range_def split: option.splits entry.splits)

lemma ldf_trusted:
  "no_filename_date path \<Longrightarrow> map_of f path = Some (File t) \<Longrightarrow> in_datetime_range t \<Longrightarrow>
   t \<le> newest_trusted_mtime imp \<Longrightarrow>
     library_destination_for imp path f
       = Inr (dated (library imp) (civil_from_days (t div us_per_day)) (pname path))"
  by (auto simp: no_filename_date_def library_destination_for_def Let_def
      stat_mtime_def fromtimestamp_def in_datetime_range_def)

lemma ldf_out_of_range:
  "no_filename_date path \<Longrightarrow> map_of f path = Some (File t) \<Longrightarrow> \<not> in_datetime_range t \<Longrightarrow>
     library_destination_for imp path f = Inl DateOutOfRange"
  by (auto simp: no_filename_date_def library_destination_for_def Let_def
      stat_mtime_def fromtimestamp_def in_datetime_range_def)

lemma parent_joinpath: "s \<noteq> [] \<Longrightarrow> s \<noteq> ''.'' \<Longrightarrow> parent (joinpath p s) = p"
  by (simp add: parent_def joinpath_def)

text \<open>
  What holds for the ambiguous files: with an invalid date in the name, or with no
  date in the name and a file that has vanished or is newer than the trust cutoff
  (and within the range of \<open>datetime\<close>), the library destination is
  \<open><quarantine>/<name>\<close>, and \<open>_decide\<close> returns it when neither duplicate check
  finds anything.
\<close>

lemma ambiguous_goes_to_quarantine:
  assumes nondot: "take 1 (pname path) \<noteq> ''.''"
    and amb: "invalid_filename_date path \<or> (no_filename_date path \<and> mtime_unknown imp (fs st) path)"
  shows "library_destination_for imp path (fs st) = Inr (joinpath (quarantine imp) (pname path))
       \<and> (\<forall>dest st'. decide imp path new_media st = Inr (dest, st')
              \<and> dest \<noteq> joinpath (trash_dir imp) (pname path)
              \<longrightarrow> dest = joinpath (quarantine imp) (pname path))
       \<and> (not_duplicate path new_media (fs st) (joinpath (quarantine imp) (pname path))
              \<and> can_mkdir (fs st) (parent (joinpath (quarantine imp) (pname path)))
              \<longrightarrow> destination (decide imp path new_media st)
                    = Inr (joinpath (quarantine imp) (pname path)))"
proof -
  have ldf: "library_destination_for imp path (fs st) = Inr (joinpath (quarantine imp) (pname path))"
    using amb ldf_invalid ldf_unknown by blast
  show ?thesis
  proof (intro conjI allI impI)
    show "library_destination_for imp path (fs st) = Inr (joinpath (quarantine imp) (pname path))"
      by (rule ldf)
  next
    fix dest st'
    assume "decide imp path new_media st = Inr (dest, st') \<and> dest \<noteq> joinpath (trash_dir imp) (pname path)"
    then show "dest = joinpath (quarantine imp) (pname path)"
      using decide_Inr [OF nondot, of imp new_media st dest st'] ldf by auto
  next
    assume a: "not_duplicate path new_media (fs st) (joinpath (quarantine imp) (pname path))
               \<and> can_mkdir (fs st) (parent (joinpath (quarantine imp) (pname path)))"
    then have "decide imp path new_media st = decide_place imp path st"
      using decide_not_duplicate [OF nondot ldf] by simp
    then show "destination (decide imp path new_media st) = Inr (joinpath (quarantine imp) (pname path))"
      using decide_place_ok [OF ldf] a by simp
  qed
qed


text \<open>
  C6, at \<open>12345678.jpg\<close>, a name of the repository's tests: no date in the name and
  a modification time newer than the trust cutoff. The stem holds no tilde, so
  \<open>rpartition\<close> returns the whole stem as the part after the tilde; it is all
  digits, the original stem is empty and the quarantine root is globbed with \<open>*\<close>.
  With one file already in the quarantine the file is trashed, with two \<open>_decide\<close>
  raises: in neither case is it quarantined.
\<close>

theorem C6_digit_stem:
  "destination (decide (real_importer [''lib''] [''q''] 50) [''new'', ''12345678.jpg''] [''new'']
       (fresh [([''new''], Dir), ([''new'', ''12345678.jpg''], File 100), ([''q''], Dir),
               ([''q'', ''IMG_foo_bar.jpg''], File 100)]))
     = Inr [''q'', ''trash'', ''12345678.jpg'']
   \<and> destination (decide (real_importer [''lib''] [''q''] 50) [''new'', ''12345678.jpg''] [''new'']
       (fresh [([''new''], Dir), ([''new'', ''12345678.jpg''], File 100), ([''q''], Dir),
               ([''q'', ''IMG_foo_bar.jpg''], File 100), ([''q'', ''550e8400.jpg''], File 100)]))
     = Inl (MultipleRawMatches [''new'', ''12345678.jpg''])"
proof -
  let ?p = "[''new'', ''12345678.jpg'']"
  let ?imp = "real_importer [''lib''] [''q''] 50"
  let ?f1 = "[([''new''], Dir), ([''new'', ''12345678.jpg''], File 100), ([''q''], Dir),
               ([''q'', ''IMG_foo_bar.jpg''], File 100)]"
  let ?f2 = "[([''new''], Dir), ([''new'', ''12345678.jpg''], File 100), ([''q''], Dir),
               ([''q'', ''IMG_foo_bar.jpg''], File 100), ([''q'', ''550e8400.jpg''], File 100)]"
  have pn: "pname ?p = ''12345678.jpg''" "stem ?p = ''12345678''" "suffix ?p = ''.jpg''"
    by (simp_all add: name_defs)
  have rp: "rpartition_tilde ''12345678'' = ([], ''12345678'')"
    by (simp add: rpartition_tilde_def)
  have dg: "isdigit ''12345678''" by (simp add: isdigit_def is_digit_def)
  have lw: "lower ''.jpg'' = ''.jpg''" by (simp add: lower_def is_upper_def)
  have ldf: "\<And>f. map_of f ?p = Some (File 100) \<Longrightarrow>
      library_destination_for ?imp ?p f = Inr [''q'', ''12345678.jpg'']"
    by (simp add: library_destination_for_def pn stat_mtime_def fromtimestamp_def
        min_timestamp_def max_timestamp_def real_importer_def joinpath_def)
  have g1: "glob ?f1 [''new''] ''12345678.dng'' = Inr []" "glob ?f2 [''new''] ''12345678.dng'' = Inr []"
    by (simp_all add: glob_def iterdir_def proper_name_def is_dir_def fnmatch_def pname_def)
  have g2: "glob ?f1 [''q''] ''12345678.dng'' = Inr []" "glob ?f2 [''q''] ''12345678.dng'' = Inr []"
    by (simp_all add: glob_def iterdir_def proper_name_def is_dir_def fnmatch_def pname_def
        is_upper_def)
  have g3: "glob ?f1 [''q''] ''*'' = Inr [ [''q'', ''IMG_foo_bar.jpg''] ]"
    "glob ?f2 [''q''] ''*'' = Inr [ [''q'', ''IMG_foo_bar.jpg''], [''q'', ''550e8400.jpg''] ]"
    by (simp_all add: glob_def iterdir_def proper_name_def is_dir_def fnmatch_def pname_def)
  have ne: "\<not> path_exists ?f1 [''new'', ''.jpg'']" "\<not> path_exists ?f2 [''new'', ''.jpg'']"
    by (simp_all add: path_exists_def)
  have tt: "to_trash ?imp ''12345678.jpg'' (fresh ?f1)
      = Inr ([''q'', ''trash'', ''12345678.jpg''],
             \<lparr>fs = ?f1 @ [([''q'', ''trash''], Dir)], trash_cached = True, confirm_cached = False\<rparr>)"
    by (simp add: to_trash_def trash_def fresh_def trash_dir_eq real_importer_def mkdir_p_def
        ancestors_def is_file_def path_exists_def joinpath_def)
  have d1: "decide ?imp ?p [''new''] (fresh ?f1) = to_trash ?imp ''12345678.jpg'' (fresh ?f1)"
    using ldf [of ?f1] g1(1) g2(1) g3(1) ne(1)
    by (simp add: decide_def decide_raw_def decide_copy_def pn rp dg lw fresh_def parent_def
        joinpath_def Let_def)
  have d2: "decide ?imp ?p [''new''] (fresh ?f2) = Inl (MultipleRawMatches ?p)"
    using ldf [of ?f2] g1(2) g2(2) g3(2) ne(2)
    by (simp add: decide_def decide_raw_def decide_copy_def pn rp dg lw fresh_def parent_def
        joinpath_def Let_def)
  show ?thesis
    using d1 d2 tt by simp
qed

text \<open>
  C5, at a modification time in the year 10000, which is newer than the trust
  cutoff: \<open>fromtimestamp\<close> raises before the comparison with the cutoff is made,
  and nothing catches it.
\<close>

theorem C5_mtime_beyond_datetime_range:
  "no_filename_date [''new'', ''DSC_future.JPG'']
   \<and> (253402300800000000 :: int) > 1700000000000000
   \<and> destination (decide (real_importer [''lib''] [''q''] 1700000000000000) [''new'', ''DSC_future.JPG'']
          [''new''] (fresh [([''new''], Dir), ([''new'', ''DSC_future.JPG''], File 253402300800000000)]))
       = Inl DateOutOfRange"
proof -
  let ?p = "[''new'', ''DSC_future.JPG'']"
  have h2: "no_filename_date ?p"
    by (simp add: no_filename_date_def name_defs)
  have st: "stem ?p = ''DSC_future''" and su: "suffix ?p = ''.JPG''"
    by (simp_all add: name_defs)
  have ldf: "library_destination_for (real_importer [''lib''] [''q''] 1700000000000000) ?p
       [([''new''], Dir), ([''new'', ''DSC_future.JPG''], File 253402300800000000)] = Inl DateOutOfRange"
    by (rule ldf_out_of_range [OF h2, of _ 253402300800000000])
       (simp_all add: in_datetime_range_def max_timestamp_def)
  show ?thesis
    using h2 ldf by (simp add: decide_def decide_raw_def st su pname_def fresh_def lower_def is_upper_def
        glob_def iterdir_def proper_name_def is_dir_def fnmatch_def)
qed

subsection \<open>Patterns without wildcards\<close>

lemma translate_literal:
  "magic_free s \<Longrightarrow> translate (s @ p) = map Lit s @ translate p"
  by (induction s) (auto simp: magic_free_def)

lemma tmatch_Star_any: "tmatch [Star] n"
  by (induction n) auto

lemma tmatch_Lits:
  "tmatch (map Lit s @ ts) n \<longleftrightarrow>
     (length s \<le> length n \<and> lower (take (length s) n) = lower s \<and> tmatch ts (drop (length s) n))"
proof (induction s arbitrary: n)
  case Nil
  then show ?case by (simp add: lower_def)
next
  case (Cons c s)
  show ?case
  proof (cases n)
    case Nil
    then show ?thesis by simp
  next
    case (Cons d n')
    then show ?thesis using Cons.IH [of n'] by (auto simp: lower_def)
  qed
qed

lemma lower_whole:
  "(length p \<le> length n \<and> lower (take (length p) n) = lower p \<and> drop (length p) n = [])
     \<longleftrightarrow> lower n = lower p"
proof
  assume a: "length p \<le> length n \<and> lower (take (length p) n) = lower p \<and> drop (length p) n = []"
  then have "take (length p) n = n" by simp
  with a show "lower n = lower p" by simp
next
  assume a: "lower n = lower p"
  then have "length n = length p"
    unfolding lower_def by (rule map_eq_imp_length_eq)
  with a show "length p \<le> length n \<and> lower (take (length p) n) = lower p \<and> drop (length p) n = []"
    by simp
qed

lemma fnmatch_same_name:
  assumes "magic_free s"
  shows "fnmatch (s @ ''.dng'') n \<longleftrightarrow> lower n = lower (s @ ''.dng'')"
proof -
  have mf: "magic_free (s @ ''.dng'')" using assms by (simp add: magic_free_def)
  have "translate (s @ ''.dng'') = map Lit (s @ ''.dng'')"
    using translate_literal [OF mf, of "[]"] by simp
  then have "fnmatch (s @ ''.dng'') n \<longleftrightarrow> tmatch (map Lit (s @ ''.dng'') @ []) n"
    by (simp add: fnmatch_def)
  also have "\<dots> \<longleftrightarrow> (length (s @ ''.dng'') \<le> length n \<and> lower (take (length (s @ ''.dng'')) n) = lower (s @ ''.dng'')
       \<and> drop (length (s @ ''.dng'')) n = [])"
    unfolding tmatch_Lits by simp
  also have "\<dots> \<longleftrightarrow> lower n = lower (s @ ''.dng'')"
    by (rule lower_whole)
  finally show ?thesis .
qed

lemma fnmatch_prefix:
  assumes "magic_free s"
  shows "fnmatch (s @ ''*'') n \<longleftrightarrow> length s \<le> length n \<and> lower (take (length s) n) = lower s"
proof -
  have "translate (s @ ''*'') = map Lit s @ [Star]"
    using translate_literal [OF assms, of "''*''"] by simp
  then show ?thesis
    by (simp add: fnmatch_def tmatch_Lits tmatch_Star_any)
qed


lemma has_two_stars_count: "has_two_stars xs \<Longrightarrow> 2 \<le> count_list xs CHR ''*''"
  by (induction xs rule: has_two_stars.induct) auto

lemma magic_free_count: "magic_free s \<Longrightarrow> count_list s CHR ''*'' = 0"
  by (simp add: magic_free_def count_list_0_iff)

lemma magic_free_stars: "magic_free s \<Longrightarrow> \<not> has_two_stars (s @ ''.dng'')"
  using has_two_stars_count [of "s @ ''.dng''"] magic_free_count [of s] by auto

lemma magic_free_one_star: "magic_free s \<Longrightarrow> \<not> has_two_stars (s @ ''*'') \<and> s @ ''*'' \<noteq> ''**''"
proof
  assume mf: "magic_free s"
  have c: "count_list (s @ ''*'') CHR ''*'' = 1"
    using magic_free_count [OF mf] by simp
  show "\<not> has_two_stars (s @ ''*'')"
    using has_two_stars_count [of "s @ ''*''"] c by auto
  show "s @ ''*'' \<noteq> ''**''"
  proof
    assume "s @ ''*'' = ''**''"
    then have "count_list (s @ ''*'') CHR ''*'' = count_list ''**'' CHR ''*''" by simp
    with c show False by simp
  qed
qed

lemma glob_same_name: "magic_free s \<Longrightarrow> glob f d (s @ ''.dng'') = Inr (ci_raw_matches f d s)"
  using magic_free_stars [of s]
  by (auto simp: glob_def ci_raw_matches_def fnmatch_same_name)

lemma glob_prefix: "magic_free s \<Longrightarrow> glob f d (s @ ''*'') = Inr (ci_prefix_matches f d s)"
  using magic_free_one_star [of s]
  by (simp add: glob_def ci_prefix_matches_def fnmatch_prefix)

subsection \<open>The two duplicate checks, step by step\<close>

lemma raw_rule_sequence:
  assumes nondot: "take 1 (pname path) \<noteq> ''.''"
  shows "(\<not> raw_rule_applies path \<longrightarrow>
            decide imp path new_media st = decide_copy imp path new_media st)
       \<and> (raw_rule_applies path \<longrightarrow>
            (glob (fs st) new_media (stem path @ ''.dng'') = Inl e \<longrightarrow>
               destination (decide imp path new_media st) = Inl e)
          \<and> (glob (fs st) new_media (stem path @ ''.dng'') = Inr ms \<and> length ms = 1 \<and> trash_ready imp st \<longrightarrow>
               destination (decide imp path new_media st) = Inr (joinpath (trash_dir imp) (pname path)))
          \<and> (glob (fs st) new_media (stem path @ ''.dng'') = Inr ms \<and> 1 < length ms \<longrightarrow>
               destination (decide imp path new_media st) = Inl (MultipleRawMatches path))
          \<and> (glob (fs st) new_media (stem path @ ''.dng'') = Inr []
               \<and> library_destination_for imp path (fs st) = Inr dest \<longrightarrow>
               (glob (fs st) (parent dest) (stem path @ ''.dng'') = Inl e \<longrightarrow>
                  destination (decide imp path new_media st) = Inl e)
             \<and> (glob (fs st) (parent dest) (stem path @ ''.dng'') = Inr ms' \<and> length ms' = 1
                  \<and> trash_ready imp st \<longrightarrow>
                  destination (decide imp path new_media st) = Inr (joinpath (trash_dir imp) (pname path)))
             \<and> (glob (fs st) (parent dest) (stem path @ ''.dng'') = Inr ms' \<and> 1 < length ms' \<longrightarrow>
                  destination (decide imp path new_media st) = Inl (MultipleRawMatches path))
             \<and> (glob (fs st) (parent dest) (stem path @ ''.dng'') = Inr [] \<longrightarrow>
                  decide imp path new_media st = decide_copy imp path new_media st)))"
proof -
  have tr: "trash_ready imp st \<Longrightarrow>
      destination (to_trash imp (pname path) st) = Inr (joinpath (trash_dir imp) (pname path))"
    using to_trash_ready [of imp st "pname path"] by auto
  show ?thesis
    using tr
    by (auto simp: decide_nondot [OF nondot] decide_raw_def raw_rule_applies_def Let_def
                   destination_def)
qed

lemma copy_rule_sequence:
  assumes copy: "copy_rule_applies path"
  shows "(path_exists (fs st) (joinpath new_media (original_stem path @ suffix path)) \<and> trash_ready imp st \<longrightarrow>
            destination (decide_copy imp path new_media st) = Inr (joinpath (trash_dir imp) (pname path)))
       \<and> (\<not> path_exists (fs st) (joinpath new_media (original_stem path @ suffix path))
            \<and> library_destination_for imp path (fs st) = Inr dest \<longrightarrow>
            (glob (fs st) (parent dest) (original_stem path @ ''*'') = Inl e \<longrightarrow>
               destination (decide_copy imp path new_media st) = Inl e)
          \<and> (glob (fs st) (parent dest) (original_stem path @ ''*'') = Inr ms \<and> length ms = 1
               \<and> trash_ready imp st \<longrightarrow>
               destination (decide_copy imp path new_media st) = Inr (joinpath (trash_dir imp) (pname path)))
          \<and> (glob (fs st) (parent dest) (original_stem path @ ''*'') = Inr ms \<and> 1 < length ms \<longrightarrow>
               destination (decide_copy imp path new_media st) = Inl (MultipleRawMatches path))
          \<and> (glob (fs st) (parent dest) (original_stem path @ ''*'') = Inr [] \<longrightarrow>
               decide_copy imp path new_media st = decide_place imp path st))"
proof -
  have tr: "trash_ready imp st \<Longrightarrow>
      destination (to_trash imp (pname path) st) = Inr (joinpath (trash_dir imp) (pname path))"
    using to_trash_ready [of imp st "pname path"] by auto
  show ?thesis
    using tr copy
    by (auto simp: decide_copy_def copy_rule_applies_def original_stem_def Let_def destination_def
             split: prod.splits)
qed

subsection \<open>Numbered copies\<close>

text \<open>
  C3 (as amended). A name that does not begin with a dot, that the RAW check lets
  through, whose stem ends in a tilde and digits, whose original stem holds no
  wildcard character, and whose library destination is \<open>dest\<close>: if the original
  stem with the same suffix exists in the staging directory the destination is the
  trash; otherwise the entries of the directory of \<open>dest\<close> whose names start with
  the original stem, ignoring case, are counted: one gives the trash, more than one
  raises, none gives the normal placement \<open>dest\<close>. The trash, or the directory of
  \<open>dest\<close>, must be creatable.
\<close>

theorem C3_numbered_copy:
  assumes nondot: "take 1 (pname path) \<noteq> ''.''"
    and copy: "copy_rule_applies path"
    and mf: "magic_free (original_stem path)"
    and ldf: "library_destination_for imp path (fs st) = Inr dest"
    and raw: "\<not> raw_rule_applies path \<or>
              (glob (fs st) new_media (stem path @ ''.dng'') = Inr [] \<and>
               glob (fs st) (parent dest) (stem path @ ''.dng'') = Inr [])"
  shows "(path_exists (fs st) (joinpath new_media (original_stem path @ suffix path)) \<and> trash_ready imp st \<longrightarrow>
            destination (decide imp path new_media st) = Inr (joinpath (trash_dir imp) (pname path)))
       \<and> (\<not> path_exists (fs st) (joinpath new_media (original_stem path @ suffix path)) \<longrightarrow>
            (length (ci_prefix_matches (fs st) (parent dest) (original_stem path)) = 1 \<and> trash_ready imp st \<longrightarrow>
               destination (decide imp path new_media st) = Inr (joinpath (trash_dir imp) (pname path)))
          \<and> (1 < length (ci_prefix_matches (fs st) (parent dest) (original_stem path)) \<longrightarrow>
               destination (decide imp path new_media st) = Inl (MultipleRawMatches path))
          \<and> (ci_prefix_matches (fs st) (parent dest) (original_stem path) = [] \<and> can_mkdir (fs st) (parent dest) \<longrightarrow>
               destination (decide imp path new_media st) = Inr dest))"
proof -
  have dc: "decide imp path new_media st = decide_copy imp path new_media st"
    using raw_rule_sequence [OF nondot, where imp = imp and new_media = new_media and st = st
        and dest = dest] raw ldf by blast
  have gp: "glob (fs st) (parent dest) (original_stem path @ ''*'')
              = Inr (ci_prefix_matches (fs st) (parent dest) (original_stem path))"
    by (rule glob_prefix [OF mf])
  have pl: "can_mkdir (fs st) (parent dest) \<Longrightarrow> destination (decide_place imp path st) = Inr dest"
    by (rule decide_place_ok [OF ldf])
  show ?thesis
    using copy_rule_sequence [OF copy, where st = st and new_media = new_media and imp = imp
        and dest = dest and ms = "ci_prefix_matches (fs st) (parent dest) (original_stem path)"] ldf pl
    unfolding dc gp by auto
qed

subsection \<open>The checks when the date is unknown\<close>

text \<open>
  A name that does not begin with a dot, without a filename date, whose file has
  vanished or has a modification time within the range of \<open>datetime\<close> and newer
  than the trust cutoff: its library destination is \<open><quarantine>/<name>\<close>, so both
  checks glob the quarantine root.
\<close>

lemma unknown_date_globs_quarantine:
  assumes nondot: "take 1 (pname path) \<noteq> ''.''"
    and named: "pname path \<noteq> []"
    and nodate: "no_filename_date path"
    and unknown: "mtime_unknown imp (fs st) path"
  shows "library_destination_for imp path (fs st) = Inr (quarantine imp @ [pname path])
       \<and> (raw_rule_applies path \<and> glob (fs st) new_media (stem path @ ''.dng'') = Inr [] \<longrightarrow>
            (glob (fs st) (quarantine imp) (stem path @ ''.dng'') = Inr ms \<and> length ms = 1
               \<and> trash_ready imp st \<longrightarrow>
               destination (decide imp path new_media st) = Inr (joinpath (trash_dir imp) (pname path)))
          \<and> (glob (fs st) (quarantine imp) (stem path @ ''.dng'') = Inr ms \<and> 1 < length ms \<longrightarrow>
               destination (decide imp path new_media st) = Inl (MultipleRawMatches path)))
       \<and> (copy_rule_applies path
            \<and> (\<not> raw_rule_applies path \<or>
                 (glob (fs st) new_media (stem path @ ''.dng'') = Inr [] \<and>
                  glob (fs st) (quarantine imp) (stem path @ ''.dng'') = Inr []))
            \<and> \<not> path_exists (fs st) (joinpath new_media (original_stem path @ suffix path)) \<longrightarrow>
            (glob (fs st) (quarantine imp) (original_stem path @ ''*'') = Inr ms \<and> length ms = 1
               \<and> trash_ready imp st \<longrightarrow>
               destination (decide imp path new_media st) = Inr (joinpath (trash_dir imp) (pname path)))
          \<and> (glob (fs st) (quarantine imp) (original_stem path @ ''*'') = Inr ms \<and> 1 < length ms \<longrightarrow>
               destination (decide imp path new_media st) = Inl (MultipleRawMatches path)))"
proof -
  have nd: "pname path \<noteq> ''.''" using nondot by auto
  have jp: "joinpath (quarantine imp) (pname path) = quarantine imp @ [pname path]"
    using named nd by (simp add: joinpath_def)
  have ldf: "library_destination_for imp path (fs st) = Inr (quarantine imp @ [pname path])"
    using ldf_unknown [OF nodate unknown] jp by simp
  have par: "parent (quarantine imp @ [pname path]) = quarantine imp"
    by (simp add: parent_def)
  note rr = raw_rule_sequence [OF nondot, where imp = imp and new_media = new_media and st = st
      and dest = "quarantine imp @ [pname path]" and ms' = ms, unfolded par]
  show ?thesis
  proof (intro conjI impI)
    show "library_destination_for imp path (fs st) = Inr (quarantine imp @ [pname path])"
      by (rule ldf)
  next
    assume "raw_rule_applies path \<and> glob (fs st) new_media (stem path @ ''.dng'') = Inr []"
      and "glob (fs st) (quarantine imp) (stem path @ ''.dng'') = Inr ms \<and> length ms = 1
             \<and> trash_ready imp st"
    then show "destination (decide imp path new_media st) = Inr (joinpath (trash_dir imp) (pname path))"
      using rr ldf by blast
  next
    assume "raw_rule_applies path \<and> glob (fs st) new_media (stem path @ ''.dng'') = Inr []"
      and "glob (fs st) (quarantine imp) (stem path @ ''.dng'') = Inr ms \<and> 1 < length ms"
    then show "destination (decide imp path new_media st) = Inl (MultipleRawMatches path)"
      using rr ldf by blast
  next
    assume a: "copy_rule_applies path
            \<and> (\<not> raw_rule_applies path \<or>
                 (glob (fs st) new_media (stem path @ ''.dng'') = Inr [] \<and>
                  glob (fs st) (quarantine imp) (stem path @ ''.dng'') = Inr []))
            \<and> \<not> path_exists (fs st) (joinpath new_media (original_stem path @ suffix path))"
      and b: "glob (fs st) (quarantine imp) (original_stem path @ ''*'') = Inr ms \<and> length ms = 1
                \<and> trash_ready imp st"
    have dc: "decide imp path new_media st = decide_copy imp path new_media st"
      using rr a ldf by blast
    from a have copy: "copy_rule_applies path" by simp
    show "destination (decide imp path new_media st) = Inr (joinpath (trash_dir imp) (pname path))"
      using copy_rule_sequence [OF copy, where st = st and new_media = new_media and imp = imp
          and dest = "quarantine imp @ [pname path]" and ms = ms]
        a b ldf unfolding dc par by blast
  next
    assume a: "copy_rule_applies path
            \<and> (\<not> raw_rule_applies path \<or>
                 (glob (fs st) new_media (stem path @ ''.dng'') = Inr [] \<and>
                  glob (fs st) (quarantine imp) (stem path @ ''.dng'') = Inr []))
            \<and> \<not> path_exists (fs st) (joinpath new_media (original_stem path @ suffix path))"
      and b: "glob (fs st) (quarantine imp) (original_stem path @ ''*'') = Inr ms \<and> 1 < length ms"
    have dc: "decide imp path new_media st = decide_copy imp path new_media st"
      using rr a ldf by blast
    from a have copy: "copy_rule_applies path" by simp
    show "destination (decide imp path new_media st) = Inl (MultipleRawMatches path)"
      using copy_rule_sequence [OF copy, where st = st and new_media = new_media and imp = imp
          and dest = "quarantine imp @ [pname path]" and ms = ms]
        a b ldf unfolding dc par by blast
  qed
qed

text \<open>
  C10, at a modification time in the year 10000, which no trust cutoff reaches. The
  staged \<open>DSC.jpg\<close> has no filename date, the staging directory holds no
  \<open>DSC.dng\<close> and the quarantine root holds exactly one; the staged \<open>DSC~2.png\<close> has
  no original in the staging directory and \<open>DSC*\<close> has exactly one match in the
  quarantine root. Neither file is sent to the trash: for both,
  \<open>_library_destination_for\<close> raises at \<open>fromtimestamp\<close> before a quarantine
  destination is computed, so the quarantine root is never globbed.
\<close>

theorem C10_untrusted_mtime_raises:
  "no_filename_date [''new'', ''DSC.jpg''] \<and> no_filename_date [''new'', ''DSC~2.png'']
   \<and> raw_rule_applies [''new'', ''DSC.jpg''] \<and> copy_rule_applies [''new'', ''DSC~2.png'']
   \<and> (253402300800000000 :: int) > 1700000000000000
   \<and> glob [([''new''], Dir), ([''new'', ''DSC.jpg''], File 253402300800000000),
            ([''new'', ''DSC~2.png''], File 253402300800000000),
            ([''q''], Dir), ([''q'', ''DSC.dng''], File 7)] [''new''] ''DSC.dng'' = Inr []
   \<and> glob [([''new''], Dir), ([''new'', ''DSC.jpg''], File 253402300800000000),
            ([''new'', ''DSC~2.png''], File 253402300800000000),
            ([''q''], Dir), ([''q'', ''DSC.dng''], File 7)] [''q''] ''DSC.dng''
        = Inr [ [''q'', ''DSC.dng''] ]
   \<and> glob [([''new''], Dir), ([''new'', ''DSC.jpg''], File 253402300800000000),
            ([''new'', ''DSC~2.png''], File 253402300800000000),
            ([''q''], Dir), ([''q'', ''DSC.dng''], File 7)] [''q''] ''DSC*''
        = Inr [ [''q'', ''DSC.dng''] ]
   \<and> destination (decide (real_importer [''lib''] [''q''] 1700000000000000) [''new'', ''DSC.jpg'']
          [''new'']
          (fresh [([''new''], Dir), ([''new'', ''DSC.jpg''], File 253402300800000000),
                  ([''new'', ''DSC~2.png''], File 253402300800000000),
                  ([''q''], Dir), ([''q'', ''DSC.dng''], File 7)]))
       = Inl DateOutOfRange
   \<and> destination (decide (real_importer [''lib''] [''q''] 1700000000000000) [''new'', ''DSC~2.png'']
          [''new'']
          (fresh [([''new''], Dir), ([''new'', ''DSC.jpg''], File 253402300800000000),
                  ([''new'', ''DSC~2.png''], File 253402300800000000),
                  ([''q''], Dir), ([''q'', ''DSC.dng''], File 7)]))
       = Inl DateOutOfRange"
proof -
  let ?p = "[''new'', ''DSC.jpg'']"
  let ?c = "[''new'', ''DSC~2.png'']"
  let ?f = "[([''new''], Dir), ([''new'', ''DSC.jpg''], File 253402300800000000),
            ([''new'', ''DSC~2.png''], File 253402300800000000),
            ([''q''], Dir), ([''q'', ''DSC.dng''], File 7)]"
  let ?imp = "real_importer [''lib''] [''q''] 1700000000000000"
  have pn: "pname ?p = ''DSC.jpg''" "pname ?c = ''DSC~2.png''" by (simp_all add: pname_def)
  have st: "stem ?p = ''DSC''" "suffix ?p = ''.jpg''" "stem ?c = ''DSC~2''" "suffix ?c = ''.png''"
    by (simp_all add: name_defs)
  have rp: "rpartition_tilde ''DSC~2'' = (''DSC'', ''2'')"
    by (simp add: rpartition_tilde_def)
  have dg: "isdigit ''2''" by (simp add: isdigit_def is_digit_def)
  have lw: "lower ''.jpg'' = ''.jpg''" "lower ''.png'' = ''.png''"
    by (simp_all add: lower_def is_upper_def)
  have n1: "no_filename_date ?p" by (simp add: no_filename_date_def pn)
  have n2: "no_filename_date ?c" by (simp add: no_filename_date_def pn)
  have ra: "raw_rule_applies ?p" by (simp add: raw_rule_applies_def st lw)
  have ca: "copy_rule_applies ?c" by (simp add: copy_rule_applies_def st rp dg)
  have g1: "glob ?f [''new''] ''DSC.dng'' = Inr []"
    by (simp add: glob_def iterdir_def proper_name_def is_dir_def fnmatch_def pname_def is_upper_def)
  have g2: "glob ?f [''q''] ''DSC.dng'' = Inr [ [''q'', ''DSC.dng''] ]"
    by (simp add: glob_def iterdir_def proper_name_def is_dir_def fnmatch_def pname_def is_upper_def)
  have g3: "glob ?f [''q''] ''DSC*'' = Inr [ [''q'', ''DSC.dng''] ]"
    by (simp add: glob_def iterdir_def proper_name_def is_dir_def fnmatch_def pname_def is_upper_def)
  have l1: "library_destination_for ?imp ?p ?f = Inl DateOutOfRange"
    by (rule ldf_out_of_range [OF n1, of _ 253402300800000000])
       (simp_all add: in_datetime_range_def max_timestamp_def)
  have l2: "library_destination_for ?imp ?c ?f = Inl DateOutOfRange"
    by (rule ldf_out_of_range [OF n2, of _ 253402300800000000])
       (simp_all add: in_datetime_range_def max_timestamp_def)
  have ne: "\<not> path_exists ?f (joinpath [''new''] ''DSC.png'')"
    by (simp add: path_exists_def joinpath_def)
  have d1: "destination (decide ?imp ?p [''new''] (fresh ?f)) = Inl DateOutOfRange"
    using l1 g1
    by (simp add: decide_def decide_raw_def pn st lw fresh_def Let_def destination_def)
  have d2: "destination (decide ?imp ?c [''new''] (fresh ?f)) = Inl DateOutOfRange"
    using l2 ne
    by (simp add: decide_def decide_raw_def decide_copy_def pn st lw rp dg fresh_def Let_def
        destination_def)
  show ?thesis
    using n1 n2 ra ca g1 g2 g3 d1 d2 by simp
qed


theorem C3_numbered_copy_witness:
  "length (ci_prefix_matches
       [([''new''], Dir), ([''new'', ''PXL_20240101_123456789~2.JPG''], File 5), ([''lib''], Dir),
        ([''lib'', ''2024''], Dir), ([''lib'', ''2024'', ''01''], Dir),
        ([''lib'', ''2024'', ''01'', ''01''], Dir),
        ([''lib'', ''2024'', ''01'', ''01'', ''PXL_20240101_123456789.DNG''], File 3)]
       [''lib'', ''2024'', ''01'', ''01''] ''PXL_20240101_123456789'') = 1
   \<and> destination (decide (real_importer [''lib''] [''q''] 0) [''new'', ''PXL_20240101_123456789~2.JPG'']
         [''new'']
         (fresh [([''new''], Dir), ([''new'', ''PXL_20240101_123456789~2.JPG''], File 5), ([''lib''], Dir),
                 ([''lib'', ''2024''], Dir), ([''lib'', ''2024'', ''01''], Dir),
                 ([''lib'', ''2024'', ''01'', ''01''], Dir),
                 ([''lib'', ''2024'', ''01'', ''01'', ''PXL_20240101_123456789.DNG''], File 3)]))
       = Inr [''q'', ''trash'', ''PXL_20240101_123456789~2.JPG'']"
proof -
  let ?p = "[''new'', ''PXL_20240101_123456789~2.JPG'']"
  let ?f = "[([''new''], Dir), ([''new'', ''PXL_20240101_123456789~2.JPG''], File 5), ([''lib''], Dir),
        ([''lib'', ''2024''], Dir), ([''lib'', ''2024'', ''01''], Dir),
        ([''lib'', ''2024'', ''01'', ''01''], Dir),
        ([''lib'', ''2024'', ''01'', ''01'', ''PXL_20240101_123456789.DNG''], File 3)]"
  let ?imp = "real_importer [''lib''] [''q''] 0"
  let ?d = "[''lib'', ''2024'', ''01'', ''01'', ''PXL_20240101_123456789~2.JPG'']"
  have pn: "pname ?p = ''PXL_20240101_123456789~2.JPG''" by (simp add: pname_def)
  have st: "stem ?p = ''PXL_20240101_123456789~2''" and su: "suffix ?p = ''.JPG''"
    by (simp_all add: name_defs)
  have os: "original_stem ?p = ''PXL_20240101_123456789''"
    unfolding original_stem_def st by (simp add: rpartition_tilde_def)
  have h1: "take 1 (pname ?p) \<noteq> ''.''" by (simp add: pn)
  have h2: "copy_rule_applies ?p"
    unfolding copy_rule_applies_def st by (simp add: rpartition_tilde_def isdigit_def is_digit_def)
  have h3: "magic_free (original_stem ?p)" unfolding os by (simp add: magic_free_def)
  have fsf: "fs (fresh ?f) = ?f" by (simp add: fresh_def)
  have h4: "library_destination_for ?imp ?p (fs (fresh ?f)) = Inr ?d"
    by (simp add: library_destination_for_def pn isdigit_def is_digit_def date_defs in_range_def
        dated_def joinpath_def real_importer_def)
  have par: "parent ?d = [''lib'', ''2024'', ''01'', ''01'']" by (simp add: parent_def)
  have h5: "\<not> raw_rule_applies ?p \<or>
              (glob (fs (fresh ?f)) [''new''] (stem ?p @ ''.dng'') = Inr [] \<and>
               glob (fs (fresh ?f)) (parent ?d) (stem ?p @ ''.dng'') = Inr [])"
    unfolding fsf par st by (simp add: glob_def iterdir_def proper_name_def is_dir_def fnmatch_def pname_def is_upper_def)
  have ne: "\<not> path_exists (fs (fresh ?f)) (joinpath [''new''] (original_stem ?p @ suffix ?p))"
    unfolding fsf os su by (simp add: path_exists_def joinpath_def)
  have one: "length (ci_prefix_matches ?f [''lib'', ''2024'', ''01'', ''01''] ''PXL_20240101_123456789'') = 1"
    by (simp add: ci_prefix_matches_def iterdir_def proper_name_def is_dir_def pname_def lower_def is_upper_def)
  have tr: "trash_ready ?imp (fresh ?f)"
    by (simp add: trash_ready_def can_mkdir_def fresh_def trash_dir_eq real_importer_def
        ancestors_def is_file_def)
  have "destination (decide ?imp ?p [''new''] (fresh ?f)) = Inr (joinpath (trash_dir ?imp) (pname ?p))"
    using C3_numbered_copy [OF h1 h2 h3 h4 h5] ne one tr unfolding fsf par os by blast
  then show ?thesis
    using one by (simp add: pn trash_dir_eq joinpath_def real_importer_def)
qed

text \<open>
  A library entry whose name differs from the original stem in case only: no name
  there starts with the original stem, yet the copy goes to the trash.
\<close>

theorem C3_counterexample:
  "spec_prefix_matches
       [([''new''], Dir), ([''new'', ''PXL_20240101_1~2.png''], File 5), ([''lib''], Dir),
        ([''lib'', ''2024''], Dir), ([''lib'', ''2024'', ''01''], Dir),
        ([''lib'', ''2024'', ''01'', ''01''], Dir),
        ([''lib'', ''2024'', ''01'', ''01'', ''pxl_20240101_1.png''], File 3)]
       [''lib'', ''2024'', ''01'', ''01''] ''PXL_20240101_1'' = []
   \<and> destination (decide (real_importer [''lib''] [''q''] 0) [''new'', ''PXL_20240101_1~2.png'']
         [''new'']
         (fresh [([''new''], Dir), ([''new'', ''PXL_20240101_1~2.png''], File 5), ([''lib''], Dir),
                 ([''lib'', ''2024''], Dir), ([''lib'', ''2024'', ''01''], Dir),
                 ([''lib'', ''2024'', ''01'', ''01''], Dir),
                 ([''lib'', ''2024'', ''01'', ''01'', ''pxl_20240101_1.png''], File 3)]))
       = Inr [''q'', ''trash'', ''PXL_20240101_1~2.png'']"
proof -
  let ?p = "[''new'', ''PXL_20240101_1~2.png'']"
  let ?f = "[([''new''], Dir), ([''new'', ''PXL_20240101_1~2.png''], File 5), ([''lib''], Dir),
        ([''lib'', ''2024''], Dir), ([''lib'', ''2024'', ''01''], Dir),
        ([''lib'', ''2024'', ''01'', ''01''], Dir),
        ([''lib'', ''2024'', ''01'', ''01'', ''pxl_20240101_1.png''], File 3)]"
  let ?imp = "real_importer [''lib''] [''q''] 0"
  let ?d = "[''lib'', ''2024'', ''01'', ''01'', ''PXL_20240101_1~2.png'']"
  have pn: "pname ?p = ''PXL_20240101_1~2.png''" by (simp add: pname_def)
  have st: "stem ?p = ''PXL_20240101_1~2''" and su: "suffix ?p = ''.png''"
    by (simp_all add: name_defs)
  have rp: "rpartition_tilde ''PXL_20240101_1~2'' = (''PXL_20240101_1'', ''2'')"
    by (simp add: rpartition_tilde_def)
  have h4: "library_destination_for ?imp ?p ?f = Inr ?d"
    by (simp add: library_destination_for_def pn isdigit_def is_digit_def date_defs in_range_def
        dated_def joinpath_def real_importer_def)
  have par: "parent ?d = [''lib'', ''2024'', ''01'', ''01'']" by (simp add: parent_def)
  have g: "glob ?f [''lib'', ''2024'', ''01'', ''01''] ''PXL_20240101_1*''
             = Inr [ [''lib'', ''2024'', ''01'', ''01'', ''pxl_20240101_1.png''] ]"
    by (simp add: glob_def iterdir_def proper_name_def is_dir_def fnmatch_def pname_def is_upper_def)
  have ne: "\<not> path_exists ?f (joinpath [''new''] ''PXL_20240101_1.png'')"
    by (simp add: path_exists_def joinpath_def)
  have tt: "to_trash ?imp ''PXL_20240101_1~2.png'' (fresh ?f)
      = Inr ([''q'', ''trash'', ''PXL_20240101_1~2.png''],
             \<lparr>fs = ?f @ [([''q''], Dir), ([''q'', ''trash''], Dir)], trash_cached = True, confirm_cached = False\<rparr>)"
    by (simp add: to_trash_def trash_def fresh_def trash_dir_eq real_importer_def mkdir_p_def
        ancestors_def is_file_def path_exists_def joinpath_def)
  have dc: "decide ?imp ?p [''new''] (fresh ?f) = to_trash ?imp ''PXL_20240101_1~2.png'' (fresh ?f)"
    using h4 g ne
    by (simp add: decide_def decide_raw_def decide_copy_def pn st su rp par lower_def is_upper_def
        isdigit_def is_digit_def fresh_def Let_def)
  have sp: "spec_prefix_matches ?f [''lib'', ''2024'', ''01'', ''01''] ''PXL_20240101_1'' = []"
    by (simp add: spec_prefix_matches_def iterdir_def proper_name_def is_dir_def pname_def)
  show ?thesis
    using sp dc tt by simp
qed

subsection \<open>A stem with a bracket\<close>

text \<open>
  C2, at a staging directory holding \<open>PXL_20240101_1[2].jpg\<close> and
  \<open>PXL_20240101_1[2].dng\<close>: exactly one entry has the same stem and the suffix
  \<open>.dng\<close>, but the stem is used as a glob pattern, in which \<open>[2]\<close> stands for
  the character \<open>2\<close>; the glob finds nothing and the JPEG is placed in the library.
\<close>

theorem C2_bracket_stem:
  "length (ci_raw_matches
       [([''new''], Dir), ([''new'', ''PXL_20240101_1[2].jpg''], File 5),
        ([''new'', ''PXL_20240101_1[2].dng''], File 5)] [''new''] ''PXL_20240101_1[2]'') = 1
   \<and> destination (decide (real_importer [''lib''] [''q''] 0) [''new'', ''PXL_20240101_1[2].jpg'']
         [''new'']
         (fresh [([''new''], Dir), ([''new'', ''PXL_20240101_1[2].jpg''], File 5),
                 ([''new'', ''PXL_20240101_1[2].dng''], File 5)]))
       = Inr [''lib'', ''2024'', ''01'', ''01'', ''PXL_20240101_1[2].jpg'']"
proof -
  let ?p = "[''new'', ''PXL_20240101_1[2].jpg'']"
  let ?f = "[([''new''], Dir), ([''new'', ''PXL_20240101_1[2].jpg''], File 5),
        ([''new'', ''PXL_20240101_1[2].dng''], File 5)]"
  let ?imp = "real_importer [''lib''] [''q''] 0"
  let ?d = "[''lib'', ''2024'', ''01'', ''01'', ''PXL_20240101_1[2].jpg'']"
  have pn: "pname ?p = ''PXL_20240101_1[2].jpg''" by (simp add: pname_def)
  have st: "stem ?p = ''PXL_20240101_1[2]''" and su: "suffix ?p = ''.jpg''"
    by (simp_all add: name_defs)
  have fsf: "fs (fresh ?f) = ?f" by (simp add: fresh_def)
  have h1: "take 1 (pname ?p) \<noteq> ''.''" by (simp add: pn)
  have ldf: "library_destination_for ?imp ?p (fs (fresh ?f)) = Inr ?d"
    by (simp add: library_destination_for_def pn isdigit_def is_digit_def date_defs in_range_def
        dated_def joinpath_def real_importer_def)
  have par: "parent ?d = [''lib'', ''2024'', ''01'', ''01'']" by (simp add: parent_def)
  have nd: "not_duplicate ?p [''new''] (fs (fresh ?f)) ?d"
    unfolding fsf not_duplicate_def st su par
    by (simp add: raw_rule_applies_def copy_rule_applies_def st su rpartition_tilde_def isdigit_def
        is_digit_def glob_def iterdir_def proper_name_def is_dir_def fnmatch_def bracket_def pname_def is_upper_def
        in_class_def in_range_def is_lower_def lower_def)
  have cm: "can_mkdir (fs (fresh ?f)) (parent ?d)"
    unfolding fsf par by (simp add: can_mkdir_def ancestors_def is_file_def upt_conv_Cons)
  have "decide ?imp ?p [''new''] (fresh ?f) = decide_place ?imp ?p (fresh ?f)"
    by (rule decide_not_duplicate [OF h1 ldf nd])
  then have "destination (decide ?imp ?p [''new''] (fresh ?f)) = Inr ?d"
    using decide_place_ok [OF ldf cm] by simp
  moreover have "length (ci_raw_matches ?f [''new''] ''PXL_20240101_1[2]'') = 1"
    by (simp add: ci_raw_matches_def iterdir_def proper_name_def is_dir_def pname_def lower_def is_upper_def)
  ultimately show ?thesis by simp
qed

subsection \<open>What \<open>mkdir\<close> and \<open>rename\<close> change\<close>

lemma map_of_filter_keys:
  "map_of (filter (\<lambda>(q, e). P q) f) r = (if P r then map_of f r else None)"
  by (induction f) auto

lemma mkdir_p_keeps:
  "mkdir_p f p = Inr f' \<Longrightarrow> map_of f r = Some e \<Longrightarrow> map_of f' r = Some e"
  by (auto simp: mkdir_p_def split: if_splits)

lemma map_of_Dirs:
  "map_of (map (\<lambda>q. (q, Dir)) qs) r = (if r \<in> set qs then Some Dir else None)"
  by (induction qs) auto

lemma mkdir_p_new:
  "mkdir_p f p = Inr f' \<Longrightarrow> map_of f r = None \<Longrightarrow>
     map_of f' r = None \<or> (map_of f' r = Some Dir \<and> r \<in> set (ancestors p))"
  by (auto simp: mkdir_p_def map_add_def map_of_Dirs split: if_splits option.splits)

lemma mkdir_p_is_file: "mkdir_p f p = Inr f' \<Longrightarrow> is_file f' r = is_file f r"
  using mkdir_p_keeps [of f p f' r] mkdir_p_new [of f p f' r]
  by (cases "map_of f r") (auto simp: is_file_def)

lemma mkdir_p_created:
  "mkdir_p f p = Inr f' \<Longrightarrow> is_dir f' r \<Longrightarrow> \<not> is_dir f r \<Longrightarrow> r \<in> set (ancestors p)"
  using mkdir_p_keeps [of f p f' r] mkdir_p_new [of f p f' r]
  by (cases "map_of f r") (auto simp: is_dir_def)

lemma mkdir_p_exists:
  "mkdir_p f p = Inr f' \<Longrightarrow> path_exists f r \<Longrightarrow> path_exists f' r"
  using mkdir_p_keeps [of f p f' r] by (auto simp: path_exists_def)

lemma rename_other:
  "rename src dst f = Inr f' \<Longrightarrow> r \<noteq> src \<Longrightarrow> r \<noteq> dst \<Longrightarrow> map_of f' r = map_of f r"
  by (auto simp: rename_def map_of_filter_keys split: option.splits entry.splits if_splits)

lemma rename_dst:
  "rename src dst f = Inr f' \<Longrightarrow>
     \<exists>t. map_of f src = Some (File t) \<and> map_of f' dst = Some (File t) \<and> \<not> is_dir f dst"
  by (auto simp: rename_def split: option.splits entry.splits if_splits)

lemma rename_is_dir: "rename src dst f = Inr f' \<Longrightarrow> is_dir f' r \<Longrightarrow> is_dir f r"
  by (auto simp: rename_def is_dir_def map_of_filter_keys split: option.splits entry.splits if_splits)

lemma rename_kind:
  assumes "rename src dst f = Inr f'" and "r \<noteq> src" and "path_exists f r"
  shows "is_file f' r = is_file f r \<and> path_exists f' r"
proof (cases "r = dst")
  case True
  obtain t where t: "map_of f' dst = Some (File t)" "\<not> is_dir f dst"
    using rename_dst [OF assms(1)] by blast
  with True assms(3) show ?thesis
    by (cases "map_of f r") (auto simp: is_file_def is_dir_def path_exists_def split: entry.splits)
next
  case False
  then show ?thesis
    using rename_other [OF assms(1) assms(2)] assms(3) by (simp add: is_file_def path_exists_def)
qed

lemma set_ancestors: "set (ancestors p) = {take i p | i. 1 \<le> i \<and> i \<le> length p}"
  by (auto simp: ancestors_def)

lemma ancestors_take: "set (ancestors (take k d)) \<subseteq> set (ancestors d)"
proof
  fix q assume "q \<in> set (ancestors (take k d))"
  then obtain i where i: "1 \<le> i" "i \<le> length (take k d)" "q = take i (take k d)"
    unfolding set_ancestors by blast
  then have "i \<le> k" "i \<le> length d" by simp_all
  with i have "q = take i d" "i \<le> length d" by (simp_all add: min_absorb1)
  with i show "q \<in> set (ancestors d)" unfolding set_ancestors by blast
qed

lemma ancestors_parent: "set (ancestors (parent d)) \<subseteq> set (ancestors d)"
  using ancestors_take [of "length d - 1" d] by (simp add: parent_def butlast_conv_take)

lemma ancestors_joinpath: "set (ancestors p) \<subseteq> set (ancestors (joinpath p s))"
  using ancestors_take [of "length p" "joinpath p s"] by (auto simp: joinpath_def)

subsection \<open>What a decision changes\<close>

lemma to_trash_effect:
  assumes "to_trash imp n st = Inr (d, st')"
  shows "d = joinpath (trash_dir imp) n \<and> confirm_cached st' = confirm_cached st \<and> trash_cached st'
       \<and> (st' = st \<or> (\<not> trash_cached st \<and> mkdir_p (fs st) (trash_dir imp) = Inr (fs st')))"
  using assms by (auto simp: to_trash_def trash_def split: if_splits sum.splits)

lemma confirm_trash_effect:
  assumes "confirm_trash imp st = Inr (c, st')"
  shows "c = confirm_trash_dir imp \<and> trash_cached st' = trash_cached st \<and> confirm_cached st'
       \<and> (st' = st \<or> (\<not> confirm_cached st \<and> mkdir_p (fs st) (confirm_trash_dir imp) = Inr (fs st')))"
  using assms by (auto simp: confirm_trash_def split: if_splits sum.splits)

lemma decide_place_effect:
  assumes "decide_place imp p st = Inr (d, st')"
  shows "library_destination_for imp p (fs st) = Inr d \<and> trash_cached st' = trash_cached st
       \<and> confirm_cached st' = confirm_cached st \<and> mkdir_p (fs st) (parent d) = Inr (fs st')"
  using assms by (auto simp: decide_place_def split: sum.splits)

lemma decide_copy_cases:
  assumes "decide_copy imp p nm st = Inr (d, st')"
  shows "to_trash imp (pname p) st = Inr (d, st') \<or> decide_place imp p st = Inr (d, st')"
  using assms by (auto simp: decide_copy_def Let_def split: prod.splits if_splits sum.splits)

lemma decide_raw_cases:
  assumes "decide_raw imp p nm st = Inr (d, st')"
  shows "to_trash imp (pname p) st = Inr (d, st') \<or> decide_place imp p st = Inr (d, st')"
  using assms decide_copy_cases [of imp p nm st d st']
  by (auto simp: decide_raw_def Let_def split: if_splits sum.splits)

lemma decide_cases:
  assumes "decide imp p nm st = Inr (d, st')"
  shows "to_trash imp (pname p) st = Inr (d, st')
       \<or> decide_place imp p st = Inr (d, st')
       \<or> (\<exists>c. confirm_trash imp st = Inr (c, st')
              \<and> d = joinpath c (dropWhile (\<lambda>c. c = CHR ''.'') (pname p)))"
  using assms decide_raw_cases [of imp p nm st d st']
  by (auto simp: decide_def Let_def split: if_splits sum.splits)

lemma decide_effect:
  assumes "decide imp p nm st = Inr (d, st')"
  shows "fs st' = fs st \<or> (\<exists>q. set (ancestors q) \<subseteq> set (ancestors d) \<and> mkdir_p (fs st) q = Inr (fs st'))"
  using decide_cases [OF assms]
proof (elim disjE exE conjE)
  assume "to_trash imp (pname p) st = Inr (d, st')"
  then show ?thesis
    using to_trash_effect [of imp "pname p" st d st'] ancestors_joinpath [of "trash_dir imp" "pname p"]
    by auto
next
  assume "decide_place imp p st = Inr (d, st')"
  then show ?thesis
    using decide_place_effect [of imp p st d st'] ancestors_parent [of d] by auto
next
  fix c
  assume "confirm_trash imp st = Inr (c, st')"
    and "d = joinpath c (dropWhile (\<lambda>c. c = CHR ''.'') (pname p))"
  then show ?thesis
    using confirm_trash_effect [of imp st c st']
      ancestors_joinpath [of "confirm_trash_dir imp" "dropWhile (\<lambda>c. c = CHR ''.'') (pname p)"]
    by auto
qed

lemma decide_flags:
  assumes "decide imp p nm st = Inr (d, st')"
  shows "(trash_cached st' \<and> \<not> trash_cached st \<longrightarrow> d = joinpath (trash_dir imp) (pname p))
       \<and> (confirm_cached st' \<and> \<not> confirm_cached st \<longrightarrow>
            d = joinpath (confirm_trash_dir imp) (dropWhile (\<lambda>c. c = CHR ''.'') (pname p)))"
  using decide_cases [OF assms]
    to_trash_effect [of imp "pname p" st d st'] decide_place_effect [of imp p st d st']
    confirm_trash_effect [of imp st _ st']
  by auto

lemma decide_is_file:
  "decide imp p nm st = Inr (d, st') \<Longrightarrow> is_file (fs st') r = is_file (fs st) r"
  using decide_effect [of imp p nm st d st'] mkdir_p_is_file by auto

lemma decide_exists:
  "decide imp p nm st = Inr (d, st') \<Longrightarrow> path_exists (fs st) r \<Longrightarrow> path_exists (fs st') r"
  using decide_effect [of imp p nm st d st'] mkdir_p_exists by auto

lemma decide_keeps:
  "decide imp p nm st = Inr (d, st') \<Longrightarrow> map_of (fs st) r = Some e \<Longrightarrow> map_of (fs st') r = Some e"
  using decide_effect [of imp p nm st d st'] mkdir_p_keeps by auto

lemma decide_created:
  "decide imp p nm st = Inr (d, st') \<Longrightarrow> is_dir (fs st') r \<Longrightarrow> \<not> is_dir (fs st) r \<Longrightarrow>
     r \<in> set (ancestors d)"
  using decide_effect [of imp p nm st d st'] mkdir_p_created [of "fs st" _ "fs st'" r] by auto

subsection \<open>Ingest: what is created\<close>

lemma move_is_dir:
  "supported_move imp \<Longrightarrow> move imp src dst f = Inr f' \<Longrightarrow> is_dir f' r \<Longrightarrow> is_dir f r"
  using rename_is_dir [of src dst f f' r] by (auto simp: supported_move_def)

lemma ingest_loop_journal:
  "ingest_loop imp nm ps j st = Inr (m, st') \<Longrightarrow> \<exists>k. m = j @ k"
proof (induction ps arbitrary: j st)
  case Nil
  then show ?case by simp
next
  case (Cons p ps)
  show ?case
  proof (cases "is_file (fs st) p")
    case False
    with Cons show ?thesis by simp
  next
    case True
    with Cons.prems obtain d st1 f where
      s: "decide imp p nm st = Inr (d, st1)" "move imp p d (fs st1) = Inr f"
      "ingest_loop imp nm ps (j @ [(pname p, d)]) (st1\<lparr>fs := f\<rparr>) = Inr (m, st')"
      by (auto split: sum.splits)
    from Cons.IH [OF s(3)] show ?thesis by auto
  qed
qed

lemma ingest_loop_skip:
  "list_all (\<lambda>p. \<not> is_file (fs st) p) ps \<Longrightarrow> ingest_loop imp nm ps j st = Inr (j, st)"
  by (induction ps) auto

lemma ingest_loop_created:
  assumes "supported_move imp"
  shows "ingest_loop imp nm ps j st = Inr (m, st') \<Longrightarrow>
     (\<forall>r. is_dir (fs st') r \<and> \<not> is_dir (fs st) r \<longrightarrow> (\<exists>x\<in>set m. r \<in> set (ancestors (snd x))))
   \<and> (trash_cached st' \<and> \<not> trash_cached st \<longrightarrow> (\<exists>x\<in>set m. snd x = joinpath (trash_dir imp) (fst x)))
   \<and> (confirm_cached st' \<and> \<not> confirm_cached st \<longrightarrow>
        (\<exists>x\<in>set m. snd x = joinpath (confirm_trash_dir imp) (dropWhile (\<lambda>c. c = CHR ''.'') (fst x))))"
proof (induction ps arbitrary: j st)
  case Nil
  then show ?case by simp
next
  case (Cons p ps)
  show ?case
  proof (cases "is_file (fs st) p")
    case False
    with Cons show ?thesis by simp
  next
    case True
    with Cons.prems obtain d st1 f where
      s: "decide imp p nm st = Inr (d, st1)" "move imp p d (fs st1) = Inr f"
      "ingest_loop imp nm ps (j @ [(pname p, d)]) (st1\<lparr>fs := f\<rparr>) = Inr (m, st')"
      by (auto split: sum.splits)
    let ?st2 = "st1\<lparr>fs := f\<rparr>"
    note ih = Cons.IH [OF s(3)]
    obtain k where "m = (j @ [(pname p, d)]) @ k"
      using ingest_loop_journal [OF s(3)] by blast
    then have mem: "(pname p, d) \<in> set m" by simp
    show ?thesis
    proof (intro conjI allI impI)
      fix r assume a: "is_dir (fs st') r \<and> \<not> is_dir (fs st) r"
      show "\<exists>x\<in>set m. r \<in> set (ancestors (snd x))"
      proof (cases "is_dir (fs ?st2) r")
        case False
        with a ih show ?thesis by blast
      next
        case True
        then have "is_dir (fs st1) r" using move_is_dir [OF assms s(2)] by simp
        with a have "r \<in> set (ancestors d)" using decide_created [OF s(1)] by blast
        with mem show ?thesis by force
      qed
    next
      assume a: "trash_cached st' \<and> \<not> trash_cached st"
      show "\<exists>x\<in>set m. snd x = joinpath (trash_dir imp) (fst x)"
      proof (cases "trash_cached ?st2")
        case False
        with a ih show ?thesis by blast
      next
        case True
        then have "d = joinpath (trash_dir imp) (pname p)" using decide_flags [OF s(1)] a by simp
        with mem show ?thesis by force
      qed
    next
      assume a: "confirm_cached st' \<and> \<not> confirm_cached st"
      show "\<exists>x\<in>set m. snd x = joinpath (confirm_trash_dir imp) (dropWhile (\<lambda>c. c = CHR ''.'') (fst x))"
      proof (cases "confirm_cached ?st2")
        case False
        with a ih show ?thesis by blast
      next
        case True
        then have "d = joinpath (confirm_trash_dir imp) (dropWhile (\<lambda>c. c = CHR ''.'') (pname p))"
          using decide_flags [OF s(1)] a by simp
        with mem show ?thesis by force
      qed
    qed
  qed
qed

text \<open>
  C9. Over a staging directory without a regular file, \<open>ingest\<close> returns the empty
  manifest and leaves the state as it was: nothing is created. When \<open>ingest\<close>
  completes, every directory that exists afterwards and did not before lies on the
  path of a destination recorded in the manifest, and a cached directory property
  (\<open>trash\<close>, \<open>confirm_trash\<close>) has been read for the first time only if a record's
  destination is directly inside that directory: the two directories are created by
  the dispositions that target them and by nothing else.
\<close>

theorem C9_empty_staging_and_lazy_directories:
  "(is_dir (fs st) new_media \<and> list_all (\<lambda>p. \<not> is_file (fs st) p) (iterdir (fs st) new_media) \<longrightarrow>
      ingest imp new_media st = Inr ([], st))
   \<and> (supported_move imp \<and> ingest imp new_media st = Inr (m, st') \<longrightarrow>
        (\<forall>r. is_dir (fs st') r \<and> \<not> is_dir (fs st) r \<longrightarrow> (\<exists>x\<in>set m. r \<in> set (ancestors (snd x))))
      \<and> (trash_cached st' \<and> \<not> trash_cached st \<longrightarrow>
           (\<exists>x\<in>set m. snd x = joinpath (trash_dir imp) (fst x)))
      \<and> (confirm_cached st' \<and> \<not> confirm_cached st \<longrightarrow>
           (\<exists>x\<in>set m. snd x = joinpath (confirm_trash_dir imp) (dropWhile (\<lambda>c. c = CHR ''.'') (fst x)))))"
proof (rule conjI)
  show "is_dir (fs st) new_media \<and> list_all (\<lambda>p. \<not> is_file (fs st) p) (iterdir (fs st) new_media) \<longrightarrow>
      ingest imp new_media st = Inr ([], st)"
    by (simp add: ingest_def ingest_loop_skip)
next
  show "supported_move imp \<and> ingest imp new_media st = Inr (m, st') \<longrightarrow>
        (\<forall>r. is_dir (fs st') r \<and> \<not> is_dir (fs st) r \<longrightarrow> (\<exists>x\<in>set m. r \<in> set (ancestors (snd x))))
      \<and> (trash_cached st' \<and> \<not> trash_cached st \<longrightarrow>
           (\<exists>x\<in>set m. snd x = joinpath (trash_dir imp) (fst x)))
      \<and> (confirm_cached st' \<and> \<not> confirm_cached st \<longrightarrow>
           (\<exists>x\<in>set m. snd x = joinpath (confirm_trash_dir imp) (dropWhile (\<lambda>c. c = CHR ''.'') (fst x))))"
  proof (rule impI)
    assume a: "supported_move imp \<and> ingest imp new_media st = Inr (m, st')"
    then have "ingest_loop imp new_media (iterdir (fs st) new_media) [] st = Inr (m, st')"
      by (auto simp: ingest_def split: if_splits)
    with a show "(\<forall>r. is_dir (fs st') r \<and> \<not> is_dir (fs st) r \<longrightarrow> (\<exists>x\<in>set m. r \<in> set (ancestors (snd x))))
      \<and> (trash_cached st' \<and> \<not> trash_cached st \<longrightarrow>
           (\<exists>x\<in>set m. snd x = joinpath (trash_dir imp) (fst x)))
      \<and> (confirm_cached st' \<and> \<not> confirm_cached st \<longrightarrow>
           (\<exists>x\<in>set m. snd x = joinpath (confirm_trash_dir imp) (dropWhile (\<lambda>c. c = CHR ''.'') (fst x))))"
      using ingest_loop_created by blast
  qed
qed

theorem C9_empty_staging_witness:
  "ingest (real_importer [''lib''] [''q''] 0) [''new'']
        (fresh [([''new''], Dir), ([''new'', ''sub''], Dir), ([''lib''], Dir), ([''q''], Dir)])
      = Inr ([], fresh [([''new''], Dir), ([''new'', ''sub''], Dir), ([''lib''], Dir), ([''q''], Dir)])
   \<and> ingest (real_importer [''lib''] [''q''] 0) [''new'']
        (fresh [([''new''], Dir), ([''new'', ''.DS_Store''], File 1), ([''lib''], Dir), ([''q''], Dir)])
      = Inr ([(''.DS_Store'', [''q'', ''trash'', ''.DS_Store''])],
             \<lparr>fs = [([''q'', ''trash'', ''.DS_Store''], File 1), ([''new''], Dir), ([''lib''], Dir),
                    ([''q''], Dir), ([''q'', ''trash''], Dir)],
              trash_cached = True, confirm_cached = False\<rparr>)
   \<and> (\<exists>x\<in>set [(''.DS_Store'', [''q'', ''trash'', ''.DS_Store''])].
         [''q'', ''trash''] \<in> set (ancestors (snd x)))"
proof -
  let ?imp = "real_importer [''lib''] [''q''] 0"
  let ?st = "fresh [([''new''], Dir), ([''new'', ''sub''], Dir), ([''lib''], Dir), ([''q''], Dir)]"
  let ?st1 = "fresh [([''new''], Dir), ([''new'', ''.DS_Store''], File 1), ([''lib''], Dir), ([''q''], Dir)]"
  let ?m = "[(''.DS_Store'', [''q'', ''trash'', ''.DS_Store''])]"
  let ?st2 = "\<lparr>fs = [([''q'', ''trash'', ''.DS_Store''], File 1), ([''new''], Dir), ([''lib''], Dir),
                    ([''q''], Dir), ([''q'', ''trash''], Dir)],
              trash_cached = True, confirm_cached = False\<rparr>"
  have a: "is_dir (fs ?st) [''new'']" by (simp add: fresh_def is_dir_def)
  have b: "list_all (\<lambda>p. \<not> is_file (fs ?st) p) (iterdir (fs ?st) [''new''])"
    by (simp add: fresh_def iterdir_def proper_name_def is_file_def)
  have c: "ingest ?imp [''new''] ?st = Inr ([], ?st)"
    using C9_empty_staging_and_lazy_directories [of ?st "[''new'']" ?imp] a b by blast
  have d: "ingest ?imp [''new''] ?st1 = Inr (?m, ?st2)"
    by (simp add: ingest_def fresh_def is_dir_def iterdir_def proper_name_def is_file_def decide_def pname_def
        to_trash_def trash_def trash_dir_eq real_importer_def mkdir_p_def ancestors_def
        path_exists_def joinpath_def rename_def parent_def Let_def)
  have e: "supported_move ?imp" by (simp add: supported_move_def real_importer_def)
  have f: "is_dir (fs ?st2) [''q'', ''trash''] \<and> \<not> is_dir (fs ?st1) [''q'', ''trash'']"
    by (simp add: is_dir_def fresh_def)
  have "\<exists>x\<in>set ?m. [''q'', ''trash''] \<in> set (ancestors (snd x))"
    using C9_empty_staging_and_lazy_directories [of ?st1 "[''new'']" ?imp ?m ?st2] d e f by blast
  with c d show ?thesis by blast
qed

subsection \<open>Ingest: the manifest and an exception\<close>

lemma move_kind:
  assumes "supported_move imp" and "move imp src dst f = Inr f'" and "r \<noteq> src" and "path_exists f r"
  shows "is_file f' r = is_file f r \<and> path_exists f' r"
  using assms rename_kind [of src dst f f' r] by (auto simp: supported_move_def)

lemma ingest_loop_names:
  assumes "supported_move imp"
  shows "distinct ps \<Longrightarrow> \<forall>r\<in>set ps. path_exists (fs st) r \<Longrightarrow>
     ingest_loop imp nm ps j st = Inr (m, st') \<Longrightarrow>
     map fst m = map fst j @ map pname (filter (is_file (fs st)) ps)"
proof (induction ps arbitrary: j st)
  case Nil
  then show ?case by simp
next
  case (Cons p ps)
  show ?case
  proof (cases "is_file (fs st) p")
    case False
    with Cons show ?thesis by simp
  next
    case True
    with Cons.prems obtain d st1 f where
      s: "decide imp p nm st = Inr (d, st1)" "move imp p d (fs st1) = Inr f"
      "ingest_loop imp nm ps (j @ [(pname p, d)]) (st1\<lparr>fs := f\<rparr>) = Inr (m, st')"
      by (auto split: sum.splits)
    have keep: "\<forall>r\<in>set ps. is_file f r = is_file (fs st) r \<and> path_exists f r"
    proof
      fix r assume r: "r \<in> set ps"
      with Cons.prems have ne: "r \<noteq> p" and ex: "path_exists (fs st) r" by auto
      have ex1: "path_exists (fs st1) r" using decide_exists [OF s(1) ex] .
      have "is_file f r = is_file (fs st1) r \<and> path_exists f r"
        using move_kind [OF assms s(2) ne ex1] .
      then show "is_file f r = is_file (fs st) r \<and> path_exists f r"
        using decide_is_file [OF s(1), of r] by simp
    qed
    then have flt: "filter (is_file f) ps = filter (is_file (fs st)) ps"
      by (auto intro: filter_cong)
    have "map fst m = map fst (j @ [(pname p, d)]) @ map pname (filter (is_file (fs (st1\<lparr>fs := f\<rparr>))) ps)"
      using Cons.IH [OF _ _ s(3)] Cons.prems(1) keep by simp
    then show ?thesis using True flt by simp
  qed
qed

lemma ingest_loop_append:
  "ingest_loop imp nm (ps1 @ ps2) j st =
     (case ingest_loop imp nm ps1 j st of
        Inl x \<Rightarrow> Inl x
      | Inr (j1, st1) \<Rightarrow> ingest_loop imp nm ps2 j1 st1)"
  by (induction ps1 arbitrary: j st) (auto split: sum.splits)

lemma ingest_aborts:
  assumes "is_dir (fs st) nm" and "iterdir (fs st) nm = ps1 @ p # ps2"
    and "ingest_loop imp nm ps1 [] st = Inr (j1, st1)"
    and "is_file (fs st1) p" and "decide imp p nm st1 = Inl e"
  shows "ingest imp nm st = Inl (e, st1)"
  using assms by (simp add: ingest_def ingest_loop_append)

lemma iterdir_distinct: "distinct (iterdir f d)"
  by (simp add: iterdir_def)

lemma iterdir_exists: "r \<in> set (iterdir f d) \<Longrightarrow> path_exists f r"
  by (auto simp: iterdir_def path_exists_def map_of_eq_None_iff image_iff)

lemma ingest_names:
  assumes "supported_move imp" and "ingest imp nm st = Inr (m, st')"
  shows "map fst m = map pname (filter (is_file (fs st)) (iterdir (fs st) nm))"
proof -
  from assms(2) have "ingest_loop imp nm (iterdir (fs st) nm) [] st = Inr (m, st')"
    by (auto simp: ingest_def split: if_splits)
  then show ?thesis
    using ingest_loop_names [OF assms(1) iterdir_distinct, of "fs st" nm st nm "[]" m st']
      iterdir_exists [of _ "fs st" nm] by auto
qed


text \<open>
  C7, at a staging directory holding a file named \<open>trash\<close> (no filename date,
  newer than the trust cutoff) and \<open>.DS_Store\<close>: the first file is moved to
  \<open><quarantine>/trash\<close>, where the second needs the trash directory; \<open>mkdir\<close>
  fails on the regular file, and \<open>ingest\<close> raises an \<open>OSError\<close>, which is neither
  a completed manifest nor the fault of multiple RAW matches. The first move stays
  applied.
\<close>

theorem C7_file_named_trash:
  "ingest (real_importer [''lib''] [''q''] 50) [''new'']
     (fresh [([''new''], Dir), ([''new'', ''trash''], File 100), ([''new'', ''.DS_Store''], File 100),
             ([''lib''], Dir), ([''q''], Dir)])
   = Inl (OSError,
          \<lparr>fs = [([''q'', ''trash''], File 100), ([''new''], Dir), ([''new'', ''.DS_Store''], File 100),
                 ([''lib''], Dir), ([''q''], Dir)],
           trash_cached = False, confirm_cached = False\<rparr>)"
proof -
  let ?imp = "real_importer [''lib''] [''q''] 50"
  let ?f = "[([''new''], Dir), ([''new'', ''trash''], File 100), ([''new'', ''.DS_Store''], File 100),
             ([''lib''], Dir), ([''q''], Dir)]"
  let ?f1 = "[([''q'', ''trash''], File 100), ([''new''], Dir), ([''new'', ''.DS_Store''], File 100),
                 ([''lib''], Dir), ([''q''], Dir)]"
  let ?st1 = "\<lparr>fs = ?f1, trash_cached = False, confirm_cached = False\<rparr>"
  have it: "iterdir ?f [''new''] = [ [''new'', ''trash''], [''new'', ''.DS_Store'']]"
    by (simp add: iterdir_def proper_name_def)
  have st: "stem [''new'', ''trash''] = ''trash''" and su: "suffix [''new'', ''trash''] = []"
    by (simp_all add: name_defs)
  have ldf: "library_destination_for ?imp [''new'', ''trash''] ?f = Inr [''q'', ''trash'']"
    by (simp add: library_destination_for_def pname_def stat_mtime_def fromtimestamp_def
        min_timestamp_def max_timestamp_def real_importer_def joinpath_def)
  have d1: "decide ?imp [''new'', ''trash''] [''new''] (fresh ?f) = Inr ([''q'', ''trash''], fresh ?f)"
    using ldf
    by (simp add: decide_def decide_raw_def decide_copy_def decide_place_def st su pname_def fresh_def
        lower_def rpartition_tilde_def isdigit_def is_digit_def mkdir_p_def ancestors_def parent_def
        is_file_def path_exists_def Let_def)
  have mv: "move ?imp [''new'', ''trash''] [''q'', ''trash''] ?f = Inr ?f1"
    by (simp add: real_importer_def rename_def is_dir_def parent_def)
  have d2: "decide ?imp [''new'', ''.DS_Store''] [''new''] ?st1 = Inl OSError"
    by (simp add: decide_def pname_def to_trash_def trash_def trash_dir_eq real_importer_def
        mkdir_p_def ancestors_def is_file_def Let_def)
  show ?thesis
    using d1 mv d2
    by (simp add: ingest_def it fresh_def is_dir_def is_file_def)
qed

subsection \<open>Decisions that do not depend on earlier moves\<close>

lemma ldf_cong:
  "same_roots a b \<Longrightarrow> stat_mtime f p = stat_mtime g p \<Longrightarrow>
     library_destination_for a p f = library_destination_for b p g"
  by (auto simp: library_destination_for_def same_roots_def Let_def split: option.splits)

lemma decide_plain_place:
  assumes "plain_file p" and "take 1 (pname p) \<noteq> ''.''"
  shows "decide imp p nm st = decide_place imp p st"
proof (cases "rpartition_tilde (stem p)")
  case (Pair a b)
  with assms show ?thesis
    by (simp add: plain_file_def decide_nondot decide_raw_def decide_copy_def raw_rule_applies_def
        copy_rule_applies_def)
qed

lemma decide_dot_dest:
  assumes "take 1 (pname p) = ''.''" and "decide imp p nm st = Inr (d, st')"
  shows "d = (if dropWhile (\<lambda>c. c = CHR ''.'') (pname p) = ''DS_Store''
              then joinpath (trash_dir imp) (pname p)
              else joinpath (confirm_trash_dir imp) (dropWhile (\<lambda>c. c = CHR ''.'') (pname p)))"
  using assms to_trash_effect [of imp "pname p" st d st'] confirm_trash_effect [of imp st _ st']
  by (auto simp: decide_def Let_def split: if_splits sum.splits)

lemma same_roots_dirs:
  "same_roots a b \<Longrightarrow> trash_dir a = trash_dir b \<and> confirm_trash_dir a = confirm_trash_dir b"
  by (simp add: same_roots_def trash_dir_def confirm_trash_dir_def)

lemma decide_plain_same:
  assumes pl: "plain_file p" and sr: "same_roots a b"
    and mt: "stat_mtime (fs s) p = stat_mtime (fs t) p"
    and da: "decide a p nm s = Inr (d, s')" and db: "decide b p nm t = Inr (e, t')"
  shows "d = e"
proof (cases "take 1 (pname p) = ''.''")
  case True
  then show ?thesis
    using decide_dot_dest [OF True da] decide_dot_dest [OF True db] same_roots_dirs [OF sr] by simp
next
  case False
  have "library_destination_for a p (fs s) = Inr d"
    using da decide_plain_place [OF pl False] decide_place_effect by metis
  moreover have "library_destination_for b p (fs t) = Inr e"
    using db decide_plain_place [OF pl False] decide_place_effect by metis
  ultimately show ?thesis using ldf_cong [OF sr mt] by simp
qed

lemma ldf_shape:
  assumes "library_destination_for imp p f = Inr d" and "proper_name (pname p)"
  shows "\<exists>ext. ext \<noteq> [] \<and> (d = quarantine imp @ ext \<or> d = library imp @ ext)"
  using assms
  by (auto simp: library_destination_for_def Let_def dated_def joinpath_def proper_name_def
      split: if_splits option.splits)

lemma decide_shape:
  assumes "decide imp p nm st = Inr (d, st')" and "proper_name (pname p)"
  shows "\<exists>ext. ext \<noteq> [] \<and> (d = quarantine imp @ ext \<or> d = library imp @ ext)"
  using decide_cases [OF assms(1)]
proof (elim disjE exE conjE)
  assume "to_trash imp (pname p) st = Inr (d, st')"
  then have "d = quarantine imp @ [''trash'', pname p]"
    using to_trash_effect [of imp "pname p" st d st'] assms(2)
    by (simp add: trash_dir_eq joinpath_def proper_name_def)
  then show ?thesis by blast
next
  assume "decide_place imp p st = Inr (d, st')"
  then show ?thesis using decide_place_effect ldf_shape [OF _ assms(2)] by blast
next
  fix c assume "confirm_trash imp st = Inr (c, st')"
    and "d = joinpath c (dropWhile (\<lambda>c. c = CHR ''.'') (pname p))"
  then have "d = quarantine imp @ [''confirm'', ''trash'']
           \<or> d = quarantine imp @ [''confirm'', ''trash'', dropWhile (\<lambda>c. c = CHR ''.'') (pname p)]"
    using confirm_trash_effect [of imp st c st'] by (auto simp: confirm_trash_dir_eq joinpath_def)
  then show ?thesis by blast
qed

lemma outside_entry:
  assumes "outside root nm" and "ext \<noteq> []" and "r \<noteq> []" and "butlast r = nm"
  shows "r \<noteq> root @ ext"
proof
  assume "r = root @ ext"
  then have "nm = root @ butlast ext" using assms(2,4) by (simp add: butlast_append)
  then show False using assms(1) by (simp add: outside_def)
qed

subsection \<open>A dry run beside a real run\<close>

lemma map_of_stat: "map_of f p = map_of g p \<Longrightarrow> stat_mtime f p = stat_mtime g p \<and> is_file f p = is_file g p"
  by (simp add: stat_mtime_def is_file_def)

lemma ingest_loop_dry_real:
  assumes dry: "move a = (\<lambda>source destination f. Inr f)" and real: "move b = rename"
    and sr: "same_roots a b"
    and oq: "outside (quarantine b) nm" and ol: "outside (library b) nm"
  shows "distinct ps \<Longrightarrow>
     \<forall>r\<in>set ps. r \<noteq> [] \<and> butlast r = nm \<and> proper_name (pname r)
        \<and> map_of (fs s) r = map_of (fs t) r \<and> map_of (fs s) r \<noteq> None
        \<and> (is_file (fs s) r \<longrightarrow> plain_file r) \<Longrightarrow>
     ingest_loop a nm ps j s = Inr (m, s') \<Longrightarrow>
     ingest_loop b nm ps j t = Inr (n, t') \<Longrightarrow> m = n"
proof (induction ps arbitrary: j s t)
  case Nil
  then show ?case by simp
next
  case (Cons p ps)
  from Cons.prems(2) have hp: "map_of (fs s) p = map_of (fs t) p" "proper_name (pname p)"
    "is_file (fs s) p \<longrightarrow> plain_file p"
    by auto
  have same_file: "is_file (fs t) p = is_file (fs s) p"
    using map_of_stat [OF hp(1)] by simp
  show ?case
  proof (cases "is_file (fs s) p")
    case False
    have a2: "ingest_loop a nm ps j s = Inr (m, s')"
      using Cons.prems(3) False by simp
    have b2: "ingest_loop b nm ps j t = Inr (n, t')"
      using Cons.prems(4) False same_file by simp
    have dps: "distinct ps" using Cons.prems(1) by simp
    have inv: "\<forall>r\<in>set ps. r \<noteq> [] \<and> butlast r = nm \<and> proper_name (pname r)
        \<and> map_of (fs s) r = map_of (fs t) r \<and> map_of (fs s) r \<noteq> None
        \<and> (is_file (fs s) r \<longrightarrow> plain_file r)"
    proof
      fix r assume "r \<in> set ps"
      then have "r \<in> set (p # ps)" by simp
      from Cons.prems(2) [rule_format, OF this]
      show "r \<noteq> [] \<and> butlast r = nm \<and> proper_name (pname r)
        \<and> map_of (fs s) r = map_of (fs t) r \<and> map_of (fs s) r \<noteq> None
        \<and> (is_file (fs s) r \<longrightarrow> plain_file r)" .
    qed
    show ?thesis by (rule Cons.IH [OF dps inv a2 b2])
  next
    case True
    with Cons.prems(3) dry obtain d s1 where
      a1: "decide a p nm s = Inr (d, s1)"
      and a2: "ingest_loop a nm ps (j @ [(pname p, d)]) s1 = Inr (m, s')"
      by (auto split: sum.splits)
    from True same_file Cons.prems(4) real obtain e t1 g where
      b1: "decide b p nm t = Inr (e, t1)" and b2: "rename p e (fs t1) = Inr g"
      and b3: "ingest_loop b nm ps (j @ [(pname p, e)]) (t1\<lparr>fs := g\<rparr>) = Inr (n, t')"
      by (auto split: sum.splits)
    have de: "d = e"
      using decide_plain_same [OF _ sr _ a1 b1] hp True map_of_stat [OF hp(1)] by simp
    obtain ext where ext: "ext \<noteq> []" "e = quarantine b @ ext \<or> e = library b @ ext"
      using decide_shape [OF b1 hp(2)] by blast
    have inv: "\<forall>r\<in>set ps. r \<noteq> [] \<and> butlast r = nm \<and> proper_name (pname r)
        \<and> map_of (fs s1) r = map_of (fs (t1\<lparr>fs := g\<rparr>)) r \<and> map_of (fs s1) r \<noteq> None
        \<and> (is_file (fs s1) r \<longrightarrow> plain_file r)"
    proof
      fix r assume r: "r \<in> set ps"
      then have rin: "r \<in> set (p # ps)" by simp
      have h1: "r \<noteq> p" using r Cons.prems(1) by auto
      have h: "r \<noteq> []" "butlast r = nm" "proper_name (pname r)"
        "map_of (fs s) r = map_of (fs t) r" "map_of (fs s) r \<noteq> None"
        "is_file (fs s) r \<longrightarrow> plain_file r"
        using Cons.prems(2) [rule_format, OF rin] by blast+
      from h(5) obtain x where x1: "map_of (fs s) r = Some x" by blast
      with h(4) have x2: "map_of (fs t) r = Some x" by simp
      note x = x1 x2
      have k1: "map_of (fs s1) r = Some x" using decide_keeps [OF a1 x(1)] .
      have k2: "map_of (fs t1) r = Some x" using decide_keeps [OF b1 x(2)] .
      have ne: "r \<noteq> e"
        using ext outside_entry [OF oq ext(1) h(1,2)] outside_entry [OF ol ext(1) h(1,2)] by auto
      have k3: "map_of g r = Some x"
        using rename_other [OF b2 h1 ne] k2 by simp
      have "is_file (fs s1) r = is_file (fs s) r"
        using k1 x(1) by (simp add: is_file_def)
      with h(1,2,3,6) k1 k3 show "r \<noteq> [] \<and> butlast r = nm \<and> proper_name (pname r)
        \<and> map_of (fs s1) r = map_of (fs (t1\<lparr>fs := g\<rparr>)) r \<and> map_of (fs s1) r \<noteq> None
        \<and> (is_file (fs s1) r \<longrightarrow> plain_file r)"
        by simp
    qed
    from Cons.prems(1) have dps: "distinct ps" by simp
    show ?thesis
      using Cons.IH [OF dps inv a2] b3 de by simp
  qed
qed

lemma iterdir_entry:
  "r \<in> set (iterdir f d) \<Longrightarrow> r \<noteq> [] \<and> butlast r = d \<and> proper_name (pname r) \<and> map_of f r \<noteq> None"
  by (auto simp: iterdir_def pname_def map_of_eq_None_iff image_iff)

text \<open>
  When the staging directory lies outside the quarantine and the library, and every
  regular file in it is a dotfile or a file that neither duplicate check looks at,
  a dry run and a real run built at the same instant that both complete return the
  same manifest.
\<close>

lemma ingest_dry_real:
  assumes oq: "outside quar nm" and ol: "outside lib nm"
    and pl: "list_all plain_file (filter (is_file (fs st)) (iterdir (fs st) nm))"
    and d: "ingest (dry_run lib quar now) nm st = Inr (m, s')"
    and r: "ingest (default_importer lib quar now) nm st = Inr (n, t')"
  shows "m = n"
proof -
  let ?a = "dry_run lib quar now" and ?b = "default_importer lib quar now"
  have dry: "move ?a = (\<lambda>source destination f. Inr f)" by (simp add: dry_run_def)
  have real: "move ?b = rename" by (simp add: default_importer_def real_importer_def)
  have sr: "same_roots ?a ?b"
    by (simp add: same_roots_def dry_run_def default_importer_def real_importer_def)
  have oq': "outside (quarantine ?b) nm" and ol': "outside (library ?b) nm"
    using oq ol by (simp_all add: default_importer_def real_importer_def)
  have la: "ingest_loop ?a nm (iterdir (fs st) nm) [] st = Inr (m, s')"
    using d by (auto simp: ingest_def split: if_splits)
  have lb: "ingest_loop ?b nm (iterdir (fs st) nm) [] st = Inr (n, t')"
    using r by (auto simp: ingest_def split: if_splits)
  have inv: "\<forall>r\<in>set (iterdir (fs st) nm). r \<noteq> [] \<and> butlast r = nm \<and> proper_name (pname r)
        \<and> map_of (fs st) r = map_of (fs st) r \<and> map_of (fs st) r \<noteq> None
        \<and> (is_file (fs st) r \<longrightarrow> plain_file r)"
    using iterdir_entry [of _ "fs st" nm] pl by (auto simp: list_all_iff)
  show ?thesis
    by (rule ingest_loop_dry_real [OF dry real sr oq' ol' iterdir_distinct inv la lb])
qed

text \<open>
  With the no-op move function every path is a regular file afterwards exactly if it
  was before, and every entry that existed is still there: only directories are
  added.
\<close>

lemma ingest_loop_dry_keeps:
  assumes dry: "move imp = (\<lambda>source destination f. Inr f)"
  shows "(\<forall>r. is_file (fs (result_state (ingest_loop imp nm ps j st))) r = is_file (fs st) r)
       \<and> (\<forall>r e. map_of (fs st) r = Some e \<longrightarrow>
              map_of (fs (result_state (ingest_loop imp nm ps j st))) r = Some e)"
proof (induction ps arbitrary: j st)
  case Nil
  then show ?case by (simp add: result_state_def)
next
  case (Cons p ps)
  show ?case
  proof (cases "is_file (fs st) p")
    case False
    then show ?thesis using Cons.IH [of j st] by simp
  next
    case True
    show ?thesis
    proof (cases "decide imp p nm st")
      case (Inl e)
      with True show ?thesis by (simp add: result_state_def)
    next
      case (Inr x)
      obtain d s1 where x: "x = (d, s1)" by (cases x)
      have eq: "ingest_loop imp nm (p # ps) j st = ingest_loop imp nm ps (j @ [(pname p, d)]) s1"
        using True Inr x dry by simp
      have d1: "decide imp p nm st = Inr (d, s1)" using Inr x by simp
      show ?thesis
        unfolding eq
        using Cons.IH [of "j @ [(pname p, d)]" s1] decide_is_file [OF d1] decide_keeps [OF d1]
        by simp
    qed
  qed
qed

text \<open>
  C8, at a staging directory listed as \<open>N.png\<close>, \<open>N~2.png\<close>, with a dry-run importer
  and a default importer built at the same instant, so that both have the trust
  cutoff 50: \<open>N.png\<close> is newer than the cutoff and \<open>N~2.png\<close> is older. The dry
  run finds the original still in the staging directory and reports the copy as
  trashed; the real run has moved the original to the quarantine and places the
  copy in the library. The two manifests differ, and the dry run has created the
  trash directory.
\<close>

theorem C8_dry_run_differs:
  "default_cutoff 259200000050 = 50
   \<and> map_sum fst fst (ingest (dry_run [''lib''] [''q''] 259200000050) [''new'']
       (fresh [([''new''], Dir), ([''new'', ''N.png''], File 100), ([''new'', ''N~2.png''], File 10),
               ([''lib''], Dir), ([''q''], Dir)]))
     = Inr [(''N.png'', [''q'', ''N.png'']), (''N~2.png'', [''q'', ''trash'', ''N~2.png''])]
   \<and> map_sum fst fst (ingest (default_importer [''lib''] [''q''] 259200000050) [''new'']
       (fresh [([''new''], Dir), ([''new'', ''N.png''], File 100), ([''new'', ''N~2.png''], File 10),
               ([''lib''], Dir), ([''q''], Dir)]))
     = Inr [(''N.png'', [''q'', ''N.png'']), (''N~2.png'', [''lib'', ''1970'', ''01'', ''01'', ''N~2.png''])]
   \<and> is_dir (fs (result_state (ingest (dry_run [''lib''] [''q''] 259200000050) [''new'']
       (fresh [([''new''], Dir), ([''new'', ''N.png''], File 100), ([''new'', ''N~2.png''], File 10),
               ([''lib''], Dir), ([''q''], Dir)])))) [''q'', ''trash'']
   \<and> \<not> is_dir [([''new''], Dir), ([''new'', ''N.png''], File 100), ([''new'', ''N~2.png''], File 10),
               ([''lib''], Dir), ([''q''], Dir)] [''q'', ''trash'']"
proof -
  let ?f = "[([''new''], Dir), ([''new'', ''N.png''], File 100), ([''new'', ''N~2.png''], File 10),
               ([''lib''], Dir), ([''q''], Dir)]"
  let ?f1 = "[([''q'', ''N.png''], File 100), ([''new''], Dir), ([''new'', ''N~2.png''], File 10),
               ([''lib''], Dir), ([''q''], Dir)]"
  let ?f2 = "?f1 @ [([''lib'', ''1970''], Dir), ([''lib'', ''1970'', ''01''], Dir),
               ([''lib'', ''1970'', ''01'', ''01''], Dir)]"
  let ?p = "[''new'', ''N.png'']" and ?c = "[''new'', ''N~2.png'']"
  let ?d = "dry_run [''lib''] [''q''] 259200000050" and ?r = "default_importer [''lib''] [''q''] 259200000050"
  let ?st = "\<lambda>f. \<lparr>fs = f, trash_cached = False, confirm_cached = False\<rparr>"
  have it: "iterdir ?f [''new''] = [?p, ?c]"
    by (simp add: iterdir_def proper_name_def)
  have np: "pname ?p = ''N.png''" "stem ?p = ''N''" "suffix ?p = ''.png''"
    by (simp_all add: name_defs)
  have nc: "pname ?c = ''N~2.png''" "stem ?c = ''N~2''" "suffix ?c = ''.png''"
    by (simp_all add: name_defs)
  have rp: "rpartition_tilde ''N'' = ([], ''N'')" "rpartition_tilde ''N~2'' = (''N'', ''2'')"
    by (simp_all add: rpartition_tilde_def)
  have dg: "\<not> isdigit ''N''" "isdigit ''2''" by (simp_all add: isdigit_def is_digit_def)
  have lw: "lower ''.png'' = ''.png''" by (simp add: lower_def is_upper_def)
  have ldp: "\<And>imp. quarantine imp = [''q''] \<Longrightarrow> newest_trusted_mtime imp = 50 \<Longrightarrow>
      library_destination_for imp ?p ?f = Inr [''q'', ''N.png'']"
    by (simp add: library_destination_for_def np stat_mtime_def fromtimestamp_def
        min_timestamp_def max_timestamp_def joinpath_def)
  have mkq: "mkdir_p ?f [''q''] = Inr ?f"
    by (simp add: mkdir_p_def ancestors_def is_file_def path_exists_def)
  have dp: "\<And>imp. quarantine imp = [''q''] \<Longrightarrow> newest_trusted_mtime imp = 50 \<Longrightarrow>
      decide imp ?p [''new''] (?st ?f) = Inr ([''q'', ''N.png''], ?st ?f)"
    using ldp mkq
    by (simp add: decide_def decide_raw_def decide_copy_def decide_place_def np rp dg lw parent_def
        Let_def)
  have qd: "quarantine ?d = [''q'']" "newest_trusted_mtime ?d = 50" "library ?d = [''lib'']"
    "move ?d = (\<lambda>source destination f. Inr f)"
    by (simp_all add: dry_run_def default_cutoff_def us_per_day_def)
  have qr: "quarantine ?r = [''q'']" "newest_trusted_mtime ?r = 50" "library ?r = [''lib'']"
    "move ?r = rename"
    by (simp_all add: default_importer_def real_importer_def default_cutoff_def us_per_day_def)
  have dcd: "decide ?d ?c [''new''] (?st ?f)
      = Inr ([''q'', ''trash'', ''N~2.png''],
             \<lparr>fs = ?f @ [([''q'', ''trash''], Dir)], trash_cached = True, confirm_cached = False\<rparr>)"
    by (simp add: decide_def decide_raw_def decide_copy_def nc rp dg lw path_exists_def joinpath_def
        to_trash_def trash_def trash_dir_eq qd mkdir_p_def ancestors_def is_file_def Let_def)
  have d: "ingest ?d [''new''] (fresh ?f)
     = Inr ([(''N.png'', [''q'', ''N.png'']), (''N~2.png'', [''q'', ''trash'', ''N~2.png''])],
            \<lparr>fs = ?f @ [([''q'', ''trash''], Dir)], trash_cached = True, confirm_cached = False\<rparr>)"
    using dp [OF qd(1,2)] dcd
    by (simp add: ingest_def fresh_def it is_dir_def is_file_def qd np nc)
  have mv1: "rename ?p [''q'', ''N.png''] ?f = Inr ?f1"
    by (simp add: rename_def is_dir_def parent_def)
  have ft: "fromtimestamp 10 = Some (1970, Suc 0, Suc 0)"
    by code_simp
  have sf: "strftime (1970, Suc 0, Suc 0) = [''1970'', ''01'', ''01'']"
    by (simp add: strftime_def year_str_def digit_char_def)
  have ldc: "library_destination_for ?r ?c ?f1 = Inr [''lib'', ''1970'', ''01'', ''01'', ''N~2.png'']"
    by (simp add: library_destination_for_def nc stat_mtime_def qr ft sf dated_def joinpath_def)
  have mk2: "mkdir_p ?f1 [''lib'', ''1970'', ''01'', ''01''] = Inr ?f2"
    by (simp add: mkdir_p_def ancestors_def is_file_def path_exists_def upt_conv_Cons)
  have gl: "glob ?f1 [''lib'', ''1970'', ''01'', ''01''] ''N*'' = Inr []"
    by (simp add: glob_def is_dir_def)
  have dcr: "decide ?r ?c [''new''] (?st ?f1)
      = Inr ([''lib'', ''1970'', ''01'', ''01'', ''N~2.png''], ?st ?f2)"
    using ldc mk2 gl
    by (simp add: decide_def decide_raw_def decide_copy_def decide_place_def nc rp dg lw
        path_exists_def joinpath_def parent_def Let_def)
  have mv2: "\<exists>g. rename ?c [''lib'', ''1970'', ''01'', ''01'', ''N~2.png''] ?f2 = Inr g"
    by (simp add: rename_def is_dir_def parent_def)
  then obtain g where g: "rename ?c [''lib'', ''1970'', ''01'', ''01'', ''N~2.png''] ?f2 = Inr g" ..
  have r: "map_sum fst fst (ingest ?r [''new''] (fresh ?f))
     = Inr [(''N.png'', [''q'', ''N.png'']), (''N~2.png'', [''lib'', ''1970'', ''01'', ''01'', ''N~2.png''])]"
    using dp [OF qr(1,2)] mv1 dcr g
    by (simp add: ingest_def fresh_def it is_dir_def is_file_def qr np nc)
  have dc: "default_cutoff 259200000050 = 50"
    by (simp add: default_cutoff_def us_per_day_def)
  show ?thesis
    unfolding d r using dc by (simp add: result_state_def is_dir_def)
qed

end
